theory Spec2Isabelle
  imports Complex_Main "HOL-Library.AList"
begin

section \<open>Strings\<close>

text \<open>
  Strings are lists of bytes (UTF-8).  The patterns and delimiters of the program are
  ASCII, and no byte of a multi-byte UTF-8 sequence is an ASCII byte, so searching for
  them in bytes agrees with searching in JavaScript's UTF-16 strings.
  \<open>toLowerCase\<close> and \<open>trim\<close> are the built-ins restricted to ASCII letters and
  ASCII white space; the properties proved below about keys use only equality of keys
  and never unfold them.
\<close>

definition toLowerCase :: "string \<Rightarrow> string" where
  "toLowerCase s =
     map (\<lambda>c. if 65 \<le> (of_char c :: nat) \<and> (of_char c :: nat) \<le> 90
              then char_of ((of_char c :: nat) + 32) else c) s"

definition isWhiteSpace :: "char \<Rightarrow> bool" where
  "isWhiteSpace c \<longleftrightarrow> (of_char c :: nat) \<in> {9, 10, 11, 12, 13, 32}"

definition trim :: "string \<Rightarrow> string" where
  "trim s = rev (dropWhile isWhiteSpace (rev (dropWhile isWhiteSpace s)))"

text \<open>The character class \<open>[A-Za-z0-9_\-]\<close> of the two URL patterns.\<close>

definition tokenChar :: "char \<Rightarrow> bool" where
  "tokenChar c \<longleftrightarrow>
     (let n = (of_char c :: nat)
      in (65 \<le> n \<and> n \<le> 90) \<or> (97 \<le> n \<and> n \<le> 122) \<or> (48 \<le> n \<and> n \<le> 57)
         \<or> n = 95 \<or> n = 45)"

text \<open>
  \<open>url.match(/<prefix>([A-Za-z0-9_\-]+)/)\<close>: the pattern is not anchored, so the
  engine tries every start position from the left and takes the first where the
  literal prefix is followed by at least one token character; the group is greedy and
  captures the longest run of token characters there.
\<close>

definition match_at :: "string \<Rightarrow> string \<Rightarrow> string option" where
  "match_at p s =
     (if take (length p) s = p \<and> takeWhile tokenChar (drop (length p) s) \<noteq> []
      then Some (takeWhile tokenChar (drop (length p) s)) else None)"

fun regex_match :: "string \<Rightarrow> string \<Rightarrow> string option" where
  "regex_match p [] = match_at p []"
| "regex_match p (c # cs) =
     (case match_at p (c # cs) of Some t \<Rightarrow> Some t | None \<Rightarrow> regex_match p cs)"

section \<open>Source URL classifier\<close>

datatype ref_kind = deck | collection

text \<open>The object \<open>{ type, id }\<close>; the fields are named \<open>kind\<close> and \<open>ident\<close> here.\<close>

record ParsedReference =
  kind :: ref_kind
  ident :: string

definition parseMoxfieldUrl :: "string \<Rightarrow> ParsedReference option" where
  "parseMoxfieldUrl url =
     (case regex_match ''/decks/'' url of
        Some t \<Rightarrow> Some \<lparr>kind = deck, ident = t\<rparr>
      | None \<Rightarrow>
          (case regex_match ''/collection/'' url of
             Some t \<Rightarrow> Some \<lparr>kind = collection, ident = t\<rparr>
           | None \<Rightarrow> None))"



section \<open>Effects: the network, timers and promise outcomes\<close>

text \<open>
  The program is a single sequential control flow whose only effects are HTTP requests,
  timer waits and console output.  The model threads the network explicitly: the
  network is the list of responses that the successive requests of a run will receive,
  each request consuming the head of the list.  A request issued when the list is
  empty is never answered, so the promise waiting for it stays pending forever.
  Every function that touches the network returns its outcome, the remaining network
  and the trace of requests and timer waits it performed, in order.  Console output is
  not part of the trace.
\<close>

datatype event =
    Request string   \<comment> \<open>\<open>protocol.get(url, ...)\<close>\<close>
  | Sleep nat        \<comment> \<open>\<open>setTimeout(..., ms)\<close>, in milliseconds\<close>

datatype error =
    RetryExhausted nat         \<comment> \<open>\<open>Error(`HTTP ${res.statusCode} after all retries`)\<close>\<close>
  | HttpStatus nat string      \<comment> \<open>\<open>Error(`HTTP ${res.statusCode} for ${url}`)\<close>\<close>
  | MalformedResponse string   \<comment> \<open>\<open>Error(`Bad JSON from ${url}: ...`)\<close>\<close>
  | TransportError             \<comment> \<open>the request's \<open>'error'\<close> event\<close>
  | TypeError                  \<comment> \<open>thrown by the runtime: property read on \<open>null\<close> or
                                   \<open>undefined\<close>, call of a non-function\<close>

text \<open>
  A response carries its status code and its body; the body is \<open>Some v\<close> when
  \<open>JSON.parse\<close> accepts the text and yields \<open>v\<close>, and \<open>None\<close> when it throws.
\<close>

datatype 'a response =
    Response (statusCode: nat) (body: "'a option")
  | ConnectionError

datatype 'a outcome = Resolved 'a | Rejected error | Pending

type_synonym ('a, 'p) io = "'a outcome \<times> 'p response list \<times> event list"

subsection \<open>\<open>httpGet(url, retries = 2)\<close>\<close>

fun httpGet :: "string \<Rightarrow> nat \<Rightarrow> 'p response list \<Rightarrow> ('p, 'p) io" where
  "httpGet url retries [] = (Pending, [], [Request url])"
| "httpGet url retries (ConnectionError # net) = (Rejected TransportError, net, [Request url])"
| "httpGet url retries (Response code b # net) =
     (if code = 429 \<or> code \<ge> 500 then
        (if retries > 0 then
           (let wait = (if code = 429 then 5000 else 2000);
                (res, net', tr) = httpGet url (retries - 1) net
            in (res, net', Request url # Sleep wait # tr))
         else (Rejected (RetryExhausted code), net, [Request url]))
      else if code \<noteq> 200 then (Rejected (HttpStatus code url), net, [Request url])
      else (case b of
              Some v \<Rightarrow> (Resolved v, net, [Request url])
            | None \<Rightarrow> (Rejected (MalformedResponse url), net, [Request url])))"

subsection \<open>The proxy gateway: \<open>fetchViaCF(targetUrl)\<close>\<close>

definition WORKER_URL :: string where
  "WORKER_URL = ''https://moxfield-proxy.faguaz.workers.dev/''"

definition MOX_API :: string where
  "MOX_API = ''https://api2.moxfield.com''"

text \<open>
  \<open>encodeURIComponent\<close> on UTF-8 bytes: the unreserved characters
  \<open>A-Z a-z 0-9 - _ . ! ~ * ' ( )\<close> stay, every other byte becomes \<open>%XX\<close>.
\<close>

definition unreserved :: "char \<Rightarrow> bool" where
  "unreserved c \<longleftrightarrow>
     (let n = (of_char c :: nat)
      in (65 \<le> n \<and> n \<le> 90) \<or> (97 \<le> n \<and> n \<le> 122) \<or> (48 \<le> n \<and> n \<le> 57)
         \<or> n \<in> {45, 95, 46, 33, 126, 42, 39, 40, 41})"

definition hexDigit :: "nat \<Rightarrow> char" where
  "hexDigit d = ''0123456789ABCDEF'' ! (d mod 16)"

definition encodeURIComponent :: "string \<Rightarrow> string" where
  "encodeURIComponent s =
     concat (map (\<lambda>c. if unreserved c then [c]
                       else [CHR ''%'', hexDigit ((of_char c :: nat) div 16),
                             hexDigit ((of_char c :: nat) mod 16)]) s)"

definition fetchViaCF :: "string \<Rightarrow> 'p response list \<Rightarrow> ('p, 'p) io" where
  "fetchViaCF targetUrl net =
     httpGet (WORKER_URL @ ''?url='' @ encodeURIComponent targetUrl) 2 net"

section \<open>Data model\<close>

text \<open>
  The fields that a raw card entry and a printing share keep the source's names, except
  \<open>set\<close>, which is \<open>setCode\<close> here.  Quantities are JavaScript numbers holding
  integers; they are modelled as unbounded integers.
\<close>

record card_fields =
  qty :: int
  setCode :: string
  setName :: string
  isFoil :: bool
  collectorNumber :: string
  scryfallId :: string

record RawCardEntry = card_fields +
  name :: string
  finishes :: "string list"

text \<open>
  A price is the number \<open>parseFloat(text)\<close>; the floating-point value is kept symbolic
  as the text it was parsed from.
\<close>

datatype number = parseFloat string

record Printing = card_fields +
  price :: "number option"

text \<open>\<open>{ name, owners }\<close>; the display name is the field \<open>cardName\<close>.\<close>

record CardAggregate =
  cardName :: string
  owners :: "(string \<times> Printing list) list"

text \<open>\<open>{ name, phone, cardCount }\<close>; the name is the field \<open>ownerName\<close>.\<close>

record Owner =
  ownerName :: string
  phone :: string
  cardCount :: int

subsection \<open>Objects used as dictionaries\<close>

text \<open>
  \<open>ownersMap\<close>, \<open>cardsMap\<close> and every \<open>owners\<close> object are created by the literal
  \<open>{}\<close> and used as dictionaries.  Such an object is modelled by the list of its own
  properties in insertion order (the special ordering of integer-like keys is not
  modelled; no property below depends on the order).  Reading \<open>obj[k]\<close> looks at the own
  properties first and then at the prototype chain, so for the property names of
  \<open>Object.prototype\<close> the read yields an inherited function or object, which is
  truthy, even when the dictionary has no such entry.
\<close>

definition proto_names :: "string list" where
  "proto_names =
     [''constructor'', ''__defineGetter__'', ''__defineSetter__'', ''hasOwnProperty'',
      ''__lookupGetter__'', ''__lookupSetter__'', ''isPrototypeOf'',
      ''propertyIsEnumerable'', ''toString'', ''valueOf'', ''__proto__'',
      ''toLocaleString'']"

datatype 'a property = Own 'a | Inherited | Missing

definition get_prop :: "(string \<times> 'a) list \<Rightarrow> string \<Rightarrow> 'a property" where
  "get_prop obj k =
     (case map_of obj k of
        Some v \<Rightarrow> Own v
      | None \<Rightarrow> if k \<in> set proto_names then Inherited else Missing)"

section \<open>Upstream documents\<close>

text \<open>
  The upstream JSON documents are taken to conform to their schema as far as the types
  of the properties go, and every property may be absent or \<open>null\<close> (\<open>None\<close>).  Only
  the properties that the program reads, or that the specification speaks of, appear.
  A card-detail object and the entry that contains it can carry the same property
  names; an \<open>entry_json\<close> is an entry of a deck section or an item of a collection page,
  with its own top-level properties and the nested object \<open>card\<close>.
\<close>

record card_json =
  j_name :: "string option"
  j_set :: "string option"
  j_setName :: "string option"
  j_cn :: "string option"
  j_finishes :: "string list option"
  j_scryfall_id :: "string option"
  j_scryfallId :: "string option"

record entry_json = card_json +
  j_quantity :: "int option"
  j_card :: "card_json option"

text \<open>
  A deck section is an object from card names to entries; \<open>None\<close> stands for a section
  that is absent or not an object.
\<close>

record deck_json =
  mainboard :: "(string \<times> entry_json option) list option"
  sideboard :: "(string \<times> entry_json option) list option"
  commanders :: "(string \<times> entry_json option) list option"
  considering :: "(string \<times> entry_json option) list option"
  maybeboard :: "(string \<times> entry_json option) list option"

text \<open>For \<open>data\<close>, \<open>None\<close> stands for a value that is not an array.\<close>

record page_json =
  totalPages :: "int option"
  data :: "entry_json option list option"

record prices_json =
  usd_foil :: "string option"
  usd :: "string option"

record scry_json =
  prices :: "prices_json option"

datatype payload =
    DeckDoc deck_json
  | PageDoc page_json
  | CardDoc scry_json
  | NullDoc   \<comment> \<open>the JSON text \<open>null\<close>\<close>

text \<open>\<open>v || d\<close> for a string-valued property: absent, \<open>null\<close> and \<open>''\<close> are falsy.\<close>

definition or_else :: "string option \<Rightarrow> string \<Rightarrow> string" where
  "or_else v d = (case v of Some s \<Rightarrow> if s = [] then d else s | None \<Rightarrow> d)"

section \<open>Deck reader\<close>

text \<open>
  The object literal pushed for one entry \<open>[name, card]\<close> of a section.
  \<open>Option.bind x f\<close> is the optional chaining \<open>x?.f\<close>.  An array, even an empty one,
  is truthy, so a present \<open>finishes\<close> is taken as it is.
\<close>

definition deck_entry :: "string \<Rightarrow> entry_json option \<Rightarrow> RawCardEntry" where
  "deck_entry nm entry =
     (let inner = Option.bind entry j_card;
          fin = (case Option.bind inner j_finishes of
                   Some f \<Rightarrow> f
                 | None \<Rightarrow> (case Option.bind entry j_finishes of Some f \<Rightarrow> f | None \<Rightarrow> []))
      in \<lparr>qty = (case Option.bind entry j_quantity of Some q \<Rightarrow> q | None \<Rightarrow> 1),
          setCode = or_else (Option.bind inner j_set) ''unknown'',
          setName = or_else (Option.bind inner j_setName) [],
          isFoil = (''foil'' \<in> set fin),
          collectorNumber = or_else (Option.bind inner j_cn) [],
          scryfallId = or_else (Option.bind inner j_scryfall_id)
                         (or_else (Option.bind inner j_scryfallId) []),
          name = trim nm,
          finishes = fin\<rparr>)"

definition deck_cards :: "deck_json \<Rightarrow> RawCardEntry list" where
  "deck_cards d =
     concat (map (\<lambda>sec. case sec d of
                           None \<Rightarrow> []
                         | Some obj \<Rightarrow> map (\<lambda>(nm, entry). deck_entry nm entry) obj)
               [mainboard, sideboard, commanders, considering, maybeboard])"

text \<open>
  \<open>data[sec]\<close> throws when the document is \<open>null\<close>; a document of another shape has
  none of the five sections.
\<close>

definition fetchDeck ::
  "string \<Rightarrow> payload response list \<Rightarrow> (RawCardEntry list, payload) io" where
  "fetchDeck ref_id net =
     (case fetchViaCF (MOX_API @ ''/v2/decks/all/'' @ ref_id) net of
        (Resolved d, net', tr) \<Rightarrow>
          (case d of
             NullDoc \<Rightarrow> (Rejected TypeError, net', tr)
           | DeckDoc doc \<Rightarrow> (Resolved (deck_cards doc), net', tr)
           | _ \<Rightarrow> (Resolved [], net', tr))
      | (Rejected e, net', tr) \<Rightarrow> (Rejected e, net', tr)
      | (Pending, net', tr) \<Rightarrow> (Pending, net', tr))"

text \<open>
  The entry as the specification words it, for comparison: each of \<open>set\<close>, \<open>setName\<close>,
  \<open>collectorNumber\<close>, \<open>finishes\<close> and \<open>scryfallId\<close> is read from the nested
  card-detail object, and from the sibling top-level property of the entry when the
  nested object lacks it.
\<close>

definition with_fallback ::
  "entry_json option \<Rightarrow> (entry_json \<Rightarrow> 'a option) \<Rightarrow> (card_json \<Rightarrow> 'a option) \<Rightarrow> 'a option" where
  "with_fallback entry sibling nested =
     (case Option.bind (Option.bind entry j_card) nested of
        Some v \<Rightarrow> Some v
      | None \<Rightarrow> Option.bind entry sibling)"

definition deck_entry_as_claimed :: "string \<Rightarrow> entry_json option \<Rightarrow> RawCardEntry" where
  "deck_entry_as_claimed nm entry =
     (let fin = (case with_fallback entry j_finishes j_finishes of Some f \<Rightarrow> f | None \<Rightarrow> [])
      in \<lparr>qty = (case Option.bind entry j_quantity of Some q \<Rightarrow> q | None \<Rightarrow> 1),
          setCode = or_else (with_fallback entry j_set j_set) ''unknown'',
          setName = or_else (with_fallback entry j_setName j_setName) [],
          isFoil = (''foil'' \<in> set fin),
          collectorNumber = or_else (with_fallback entry j_cn j_cn) [],
          scryfallId = or_else (with_fallback entry j_scryfall_id j_scryfall_id)
                         (or_else (with_fallback entry j_scryfallId j_scryfallId) []),
          name = trim nm,
          finishes = fin\<rparr>)"

section \<open>Collection reader\<close>

definition page_entry :: "entry_json option \<Rightarrow> RawCardEntry option" where
  "page_entry item =
     (case Option.bind item j_card of
        None \<Rightarrow> None
      | Some c \<Rightarrow>
          (case j_name c of
             None \<Rightarrow> None
           | Some nm \<Rightarrow>
               if nm = [] then None
               else (let fin = (case j_finishes c of Some f \<Rightarrow> f | None \<Rightarrow> [])
                     in Some \<lparr>qty = (case Option.bind item j_quantity of
                                       Some q \<Rightarrow> q | None \<Rightarrow> 1),
                              setCode = or_else (j_set c) ''unknown'',
                              setName = or_else (j_setName c) [],
                              isFoil = (''foil'' \<in> set fin),
                              collectorNumber = or_else (j_cn c) [],
                              scryfallId = or_else (j_scryfall_id c)
                                             (or_else (j_scryfallId c) []),
                              name = trim nm,
                              finishes = fin\<rparr>)))"

definition page_cards :: "payload \<Rightarrow> RawCardEntry list" where
  "page_cards d =
     (case d of
        PageDoc pg \<Rightarrow> (case data pg of None \<Rightarrow> [] | Some items \<Rightarrow> List.map_filter page_entry items)
      | _ \<Rightarrow> [])"

text \<open>\<open>data.totalPages || 1\<close>.\<close>

definition page_total :: "payload \<Rightarrow> int" where
  "page_total d =
     (case d of
        PageDoc pg \<Rightarrow> (case totalPages pg of None \<Rightarrow> 1 | Some n \<Rightarrow> if n = 0 then 1 else n)
      | _ \<Rightarrow> 1)"

fun digits :: "nat \<Rightarrow> string" where
  "digits n =
     (if n < 10 then [''0123456789'' ! n]
      else digits (n div 10) @ [''0123456789'' ! (n mod 10)])"

definition page_url :: "string \<Rightarrow> nat \<Rightarrow> string" where
  "page_url ref_id page =
     MOX_API @ ''/v1/collections/search/'' @ ref_id
       @ ''?sortType=cardName&sortDirection=ascending&pageNumber='' @ digits page
       @ ''&pageSize=50''"

lemma httpGet_consumes:
  "httpGet url retries net = (Resolved v, net', tr) \<Longrightarrow> length net' < length net"
proof (induction url retries net arbitrary: tr rule: httpGet.induct)
  case (3 url retries code b net)
  then show ?case
    by (fastforce split: if_splits option.splits prod.splits)
qed simp_all

lemma fetchViaCF_consumes:
  "fetchViaCF url net = (Resolved v, net', tr) \<Longrightarrow> length net' < length net"
  unfolding fetchViaCF_def by (rule httpGet_consumes)

text \<open>
  The loop \<open>while (page <= totalPages)\<close>, with the loop variables as arguments.  Every
  iteration that goes on has consumed a response, so the loop ends on every network.
\<close>

function fetchCollection_loop ::
  "string \<Rightarrow> nat \<Rightarrow> int \<Rightarrow> RawCardEntry list \<Rightarrow> payload response list
     \<Rightarrow> (RawCardEntry list, payload) io" where
  "fetchCollection_loop ref_id page pages allCards net =
     (if int page \<le> pages then
        (case fetchViaCF (page_url ref_id page) net of
           (Resolved d, net', tr) \<Rightarrow>
             (if d = NullDoc then (Rejected TypeError, net', tr)
              else
                (let pages' = (if page = 1 then page_total d else pages);
                     allCards' = allCards @ page_cards d;
                     pause = (if int (page + 1) \<le> pages' then [Sleep 300] else [])
                 in case fetchCollection_loop ref_id (page + 1) pages' allCards' net' of
                      (res, net'', tr') \<Rightarrow> (res, net'', tr @ pause @ tr')))
         | (Rejected e, net', tr) \<Rightarrow> (Rejected e, net', tr)
         | (Pending, net', tr) \<Rightarrow> (Pending, net', tr))
      else (Resolved allCards, net, []))"
  by pat_completeness auto
termination
  by (relation "measure (\<lambda>(ref_id, page, pages, allCards, net). length net)")
     (auto dest: fetchViaCF_consumes [OF sym])

definition fetchCollection ::
  "string \<Rightarrow> payload response list \<Rightarrow> (RawCardEntry list, payload) io" where
  "fetchCollection ref_id net = fetchCollection_loop ref_id 1 1 [] net"

section \<open>Aggregation engine: the merge loop\<close>

text \<open>
  \<open>printings.find(p => p.set === card.set && p.isFoil === card.isFoil)\<close> followed by
  either \<open>existingPrinting.qty += card.qty\<close> on the first printing found or by the
  \<open>push\<close> of a new printing with \<open>price: null\<close>.
\<close>

definition new_printing :: "RawCardEntry \<Rightarrow> Printing" where
  "new_printing entry =
     \<lparr>qty = qty entry, setCode = setCode entry, setName = setName entry,
      isFoil = isFoil entry, collectorNumber = collectorNumber entry,
      scryfallId = scryfallId entry, price = None\<rparr>"

fun merge_printing :: "RawCardEntry \<Rightarrow> Printing list \<Rightarrow> Printing list" where
  "merge_printing entry [] = [new_printing entry]"
| "merge_printing entry (p # ps) =
     (if setCode p = setCode entry \<and> isFoil p = isFoil entry
      then p\<lparr>qty := qty p + qty entry\<rparr> # ps
      else p # merge_printing entry ps)"

text \<open>
  The body of the loop \<open>for (const card of cards)\<close>.  When \<open>cardsMap[key]\<close> is
  inherited, it is truthy, no aggregate is created, its \<open>owners\<close> is \<open>undefined\<close> and
  \<open>cardsMap[key].owners[src.owner]\<close> throws.  When \<open>owners[src.owner]\<close> is inherited,
  it is truthy, no list is created and \<open>printings.find\<close> is not a function.  The
  exception is not caught in \<open>main\<close>.
\<close>

definition merge_card ::
  "string \<Rightarrow> RawCardEntry \<Rightarrow> (string \<times> CardAggregate) list
     \<Rightarrow> error + (string \<times> CardAggregate) list" where
  "merge_card owner entry cardsMap =
     (let key = toLowerCase (name entry)
      in case get_prop cardsMap key of
           Inherited \<Rightarrow> Inl TypeError
         | found \<Rightarrow>
             (let agg = (case found of
                           Own a \<Rightarrow> a
                         | _ \<Rightarrow> \<lparr>cardName = name entry, owners = []\<rparr>)
              in case get_prop (owners agg) owner of
                   Inherited \<Rightarrow> Inl TypeError
                 | found' \<Rightarrow>
                     (let printings = (case found' of Own ps \<Rightarrow> ps | _ \<Rightarrow> [])
                      in Inr (AList.update key
                                (agg\<lparr>owners := AList.update owner
                                                  (merge_printing entry printings)
                                                  (owners agg)\<rparr>)
                                cardsMap))))"

fun merge_cards ::
  "string \<Rightarrow> RawCardEntry list \<Rightarrow> (string \<times> CardAggregate) list
     \<Rightarrow> error + (string \<times> CardAggregate) list" where
  "merge_cards owner [] cardsMap = Inr cardsMap"
| "merge_cards owner (entry # cards) cardsMap =
     (case merge_card owner entry cardsMap of
        Inl e \<Rightarrow> Inl e
      | Inr cardsMap' \<Rightarrow> merge_cards owner cards cardsMap')"

text \<open>
  A run of \<open>main\<close> executes the loop body for a sequence of (owner, card) pairs: the
  cards of the first fetched URL under its owner, then those of the second, and so on.
  \<open>merge_all\<close> is the loop body iterated over such a sequence.
\<close>

fun merge_all ::
  "(string \<times> RawCardEntry) list \<Rightarrow> (string \<times> CardAggregate) list
     \<Rightarrow> error + (string \<times> CardAggregate) list" where
  "merge_all [] cardsMap = Inr cardsMap"
| "merge_all ((owner, entry) # rest) cardsMap =
     (case merge_card owner entry cardsMap of
        Inl e \<Rightarrow> Inl e
      | Inr cardsMap' \<Rightarrow> merge_all rest cardsMap')"

text \<open>What the aggregate holds for a card key and an owner.\<close>

definition printings_of ::
  "(string \<times> CardAggregate) list \<Rightarrow> string \<Rightarrow> string \<Rightarrow> Printing list" where
  "printings_of cardsMap key owner =
     (case map_of cardsMap key of
        None \<Rightarrow> []
      | Some agg \<Rightarrow> (case map_of (owners agg) owner of None \<Rightarrow> [] | Some ps \<Rightarrow> ps))"

text \<open>
  What identifies a printing within one owner's list of one card: the pair that
  \<open>find\<close> compares, \<open>set\<close> and \<open>isFoil\<close>.
\<close>

definition printing_id :: "'a card_fields_scheme \<Rightarrow> string \<times> bool" where
  "printing_id c = (setCode c, isFoil c)"

definition same_printing :: "string \<times> bool \<Rightarrow> Printing \<Rightarrow> bool" where
  "same_printing pid p \<longleftrightarrow> printing_id p = pid"

text \<open>An (owner, card) pair counts towards the printing \<open>pid\<close> of \<open>owner\<close> under \<open>key\<close>.\<close>

definition counts_for ::
  "string \<Rightarrow> string \<Rightarrow> string \<times> bool \<Rightarrow> string \<times> RawCardEntry \<Rightarrow> bool" where
  "counts_for key owner pid oc \<longleftrightarrow>
     fst oc = owner \<and> toLowerCase (name (snd oc)) = key \<and> printing_id (snd oc) = pid"

definition total_qty :: "(string \<times> RawCardEntry) list \<Rightarrow> int" where
  "total_qty pairs = sum_list (map (\<lambda>oc. qty (snd oc)) pairs)"

section \<open>Aggregation engine: owners, sources and URLs\<close>

record Source =
  owner :: string
  url :: "string option"
  urls :: "string list option"

record Config =
  sources :: "Source list"
  phoneSecretNames :: "(string \<times> string) list option"

text \<open>
  \<open>src.urls ? src.urls : (src.url ? [src.url] : [])\<close>: an array is truthy even when
  empty, a string when it is not empty.
\<close>

definition urls_of :: "Source \<Rightarrow> string list" where
  "urls_of src =
     (case urls src of
        Some us \<Rightarrow> us
      | None \<Rightarrow> (case url src of Some u \<Rightarrow> if u = [] then [] else [u] | None \<Rightarrow> []))"

text \<open>
  The block under \<open>// ensure owner exists\<close>.  The environment is the function from a
  variable name to the string \<open>process.env\<close> holds for it.
\<close>

definition register_owner ::
  "Config \<Rightarrow> (string \<Rightarrow> string option) \<Rightarrow> string \<Rightarrow> (string \<times> Owner) list
     \<Rightarrow> (string \<times> Owner) list" where
  "register_owner config env own ownersMap =
     (case get_prop ownersMap own of
        Missing \<Rightarrow>
          (let secretKey = Option.bind (phoneSecretNames config) (\<lambda>names. map_of names own);
               ph = (case secretKey of
                       None \<Rightarrow> []
                     | Some k \<Rightarrow> if k = [] then [] else or_else (env k) [])
           in AList.update own \<lparr>ownerName = own, phone = ph, cardCount = 0\<rparr> ownersMap)
      | _ \<Rightarrow> ownersMap)"

text \<open>
  \<open>ownersMap[src.owner].cardCount += cards.length\<close>.  When the owner is not an own
  property, the read yields an inherited object and the assignment lands on that
  object, not in \<open>ownersMap\<close>.
\<close>

definition add_cardCount ::
  "string \<Rightarrow> nat \<Rightarrow> (string \<times> Owner) list \<Rightarrow> (string \<times> Owner) list" where
  "add_cardCount own n ownersMap =
     (case map_of ownersMap own of
        Some ow \<Rightarrow> AList.update own (ow\<lparr>cardCount := cardCount ow + int n\<rparr>) ownersMap
      | None \<Rightarrow> ownersMap)"

text \<open>Every record of \<open>ownersMap\<close> is stored under its own name.\<close>

definition names_match :: "(string \<times> Owner) list \<Rightarrow> bool" where
  "names_match om \<longleftrightarrow> (\<forall>x \<in> set om. ownerName (snd x) = fst x)"

type_synonym aggregate = "(string \<times> Owner) list \<times> (string \<times> CardAggregate) list"

text \<open>
  The loop \<open>for (const url of urls)\<close>.  A URL that does not classify and a fetch that
  rejects are skipped by \<open>continue\<close>; an exception of the merge loop is not caught and
  rejects \<open>main\<close>.
\<close>

fun process_urls ::
  "string \<Rightarrow> string list \<Rightarrow> aggregate \<Rightarrow> payload response list
     \<Rightarrow> (aggregate, payload) io" where
  "process_urls own [] st net = (Resolved st, net, [])"
| "process_urls own (u # us) (ownersMap, cardsMap) net =
     (case parseMoxfieldUrl u of
        None \<Rightarrow> process_urls own us (ownersMap, cardsMap) net
      | Some parsed \<Rightarrow>
          (case (if kind parsed = deck then fetchDeck (ident parsed) net
                 else fetchCollection (ident parsed) net) of
             (Pending, net', tr) \<Rightarrow> (Pending, net', tr)
           | (Rejected e, net', tr) \<Rightarrow>
               (case process_urls own us (ownersMap, cardsMap) net' of
                  (res, net'', tr') \<Rightarrow> (res, net'', tr @ tr'))
           | (Resolved cards, net', tr) \<Rightarrow>
               (case merge_cards own cards cardsMap of
                  Inl e \<Rightarrow> (Rejected e, net', tr)
                | Inr cardsMap' \<Rightarrow>
                    (case process_urls own us
                            (add_cardCount own (length cards) ownersMap, cardsMap') net' of
                       (res, net'', tr') \<Rightarrow> (res, net'', tr @ Sleep 1000 # tr')))))"

text \<open>The loop \<open>for (const src of config.sources)\<close>.\<close>

fun process_sources ::
  "Config \<Rightarrow> (string \<Rightarrow> string option) \<Rightarrow> Source list \<Rightarrow> aggregate
     \<Rightarrow> payload response list \<Rightarrow> (aggregate, payload) io" where
  "process_sources config env [] st net = (Resolved st, net, [])"
| "process_sources config env (src # srcs) (ownersMap, cardsMap) net =
     (case process_urls (owner src) (urls_of src)
             (register_owner config env (owner src) ownersMap, cardsMap) net of
        (Resolved st', net', tr) \<Rightarrow>
          (case process_sources config env srcs st' net' of
             (res, net'', tr') \<Rightarrow> (res, net'', tr @ tr'))
      | (Rejected e, net', tr) \<Rightarrow> (Rejected e, net', tr)
      | (Pending, net', tr) \<Rightarrow> (Pending, net', tr))"

section \<open>Price enrichment pass\<close>

text \<open>
  \<open>fetchPrice\<close> returns a price text or \<open>null\<close>.  Everything after the skip test is
  inside \<open>try\<close>: a rejection of \<open>httpGet\<close> and the exception of reading \<open>data.prices\<close>
  on \<open>null\<close> both go to \<open>catch\<close>, which returns \<open>null\<close>; \<open>await sleep(100)\<close> is the
  last statement of the \<open>try\<close> block before \<open>return price\<close>.
\<close>

definition price_of :: "scry_json \<Rightarrow> string option" where
  "price_of d =
     (case or_else (Option.bind (prices d) usd_foil)
             (or_else (Option.bind (prices d) usd) []) of
        [] \<Rightarrow> None
      | s \<Rightarrow> Some s)"

definition fetchPrice ::
  "string \<Rightarrow> string \<Rightarrow> string \<Rightarrow> string \<Rightarrow> payload response list
     \<Rightarrow> (string option, payload) io" where
  "fetchPrice sid st cn cname net =
     (if sid = [] \<and> (st = [] \<or> cn = []) then (Resolved None, net, [])
      else
        (let u = (if sid \<noteq> [] then ''https://api.scryfall.com/cards/'' @ sid
                  else ''https://api.scryfall.com/cards/'' @ st @ ''/'' @ cn)
         in case httpGet u 2 net of
              (Resolved d, net', tr) \<Rightarrow>
                (case d of
                   NullDoc \<Rightarrow> (Resolved None, net', tr)
                 | CardDoc doc \<Rightarrow> (Resolved (price_of doc), net', tr @ [Sleep 100])
                 | _ \<Rightarrow> (Resolved None, net', tr @ [Sleep 100]))
            | (Rejected e, net', tr) \<Rightarrow> (Resolved None, net', tr)
            | (Pending, net', tr) \<Rightarrow> (Pending, net', tr)))"

text \<open>
  The three nested loops over the cards, the owners of a card and the printings of an
  owner, with the counters \<open>(pricesFetched, pricesTotal)\<close> as arguments.
\<close>

fun enrich_printings ::
  "string \<Rightarrow> Printing list \<Rightarrow> nat \<times> nat \<Rightarrow> payload response list
     \<Rightarrow> (Printing list \<times> nat \<times> nat, payload) io" where
  "enrich_printings cname [] counts net = (Resolved ([], counts), net, [])"
| "enrich_printings cname (p # ps) (fetched, tot) net =
     (case fetchPrice (scryfallId p) (setCode p) (collectorNumber p) cname net of
        (Resolved pr, net', tr) \<Rightarrow>
          (case enrich_printings cname ps
                  (case pr of Some s \<Rightarrow> fetched + 1 | None \<Rightarrow> fetched, tot + 1) net' of
             (res, net'', tr') \<Rightarrow>
               (map_outcome
                  (\<lambda>(ps', c). ((case pr of Some s \<Rightarrow> p\<lparr>price := Some (parseFloat s)\<rparr>
                                 | None \<Rightarrow> p) # ps', c)) res,
                net'', tr @ tr'))
      | (Rejected e, net', tr) \<Rightarrow> (Rejected e, net', tr)
      | (Pending, net', tr) \<Rightarrow> (Pending, net', tr))"

fun enrich_owners ::
  "string \<Rightarrow> (string \<times> Printing list) list \<Rightarrow> nat \<times> nat \<Rightarrow> payload response list
     \<Rightarrow> ((string \<times> Printing list) list \<times> nat \<times> nat, payload) io" where
  "enrich_owners cname [] counts net = (Resolved ([], counts), net, [])"
| "enrich_owners cname ((own, ps) # rest) counts net =
     (case enrich_printings cname ps counts net of
        (Resolved (ps', counts'), net', tr) \<Rightarrow>
          (case enrich_owners cname rest counts' net' of
             (res, net'', tr') \<Rightarrow>
               (map_outcome (\<lambda>(rest', c). ((own, ps') # rest', c)) res,
                net'', tr @ tr'))
      | (Rejected e, net', tr) \<Rightarrow> (Rejected e, net', tr)
      | (Pending, net', tr) \<Rightarrow> (Pending, net', tr))"

fun enrich_cards ::
  "(string \<times> CardAggregate) list \<Rightarrow> nat \<times> nat \<Rightarrow> payload response list
     \<Rightarrow> ((string \<times> CardAggregate) list \<times> nat \<times> nat, payload) io" where
  "enrich_cards [] counts net = (Resolved ([], counts), net, [])"
| "enrich_cards ((cardKey, cardData) # rest) counts net =
     (case enrich_owners (cardName cardData) (owners cardData) counts net of
        (Resolved (os', counts'), net', tr) \<Rightarrow>
          (case enrich_cards rest counts' net' of
             (res, net'', tr') \<Rightarrow>
               (map_outcome
                  (\<lambda>(rest', c). ((cardKey, cardData\<lparr>owners := os'\<rparr>) # rest', c)) res,
                net'', tr @ tr'))
      | (Rejected e, net', tr) \<Rightarrow> (Rejected e, net', tr)
      | (Pending, net', tr) \<Rightarrow> (Pending, net', tr))"

text \<open>
  The skip test of \<open>fetchPrice\<close>, \<open>!scryfallId && (!set || !collectorNumber)\<close>, on a
  printing: it has no Scryfall id and no complete pair of set and collector number.
\<close>

definition lacks_price_key :: "Printing \<Rightarrow> bool" where
  "lacks_price_key p \<longleftrightarrow> scryfallId p = [] \<and> (setCode p = [] \<or> collectorNumber p = [])"

text \<open>The printings of an aggregate, and their number.\<close>

definition all_printings :: "(string \<times> CardAggregate) list \<Rightarrow> Printing list" where
  "all_printings cardsMap = concat (map (\<lambda>ka. concat (map snd (owners (snd ka)))) cardsMap)"

definition count_printings :: "(string \<times> CardAggregate) list \<Rightarrow> nat" where
  "count_printings cardsMap = length (all_printings cardsMap)"

text \<open>
  How the pass may change a printing, the printings of an owner and a card: only the
  price of a printing can differ afterwards, and a printing that lacks a price key is
  the same afterwards.
\<close>

definition kept :: "Printing \<Rightarrow> Printing \<Rightarrow> bool" where
  "kept p p' \<longleftrightarrow> p' = p\<lparr>price := price p'\<rparr> \<and> (lacks_price_key p \<longrightarrow> p' = p)"

definition owner_kept :: "string \<times> Printing list \<Rightarrow> string \<times> Printing list \<Rightarrow> bool" where
  "owner_kept x y \<longleftrightarrow> fst y = fst x \<and> list_all2 kept (snd x) (snd y)"

definition card_kept :: "string \<times> CardAggregate \<Rightarrow> string \<times> CardAggregate \<Rightarrow> bool" where
  "card_kept x y \<longleftrightarrow>
     fst y = fst x \<and> cardName (snd y) = cardName (snd x)
     \<and> list_all2 owner_kept (owners (snd x)) (owners (snd y))"

section \<open>The summary line and \<open>main\<close>\<close>

text \<open>
  \<open>(pricesFetched / pricesTotal) * 100\<close> on JavaScript numbers: division by zero does
  not throw, it yields \<open>NaN\<close> for \<open>0 / 0\<close> and \<open>Infinity\<close> for a positive numerator.  A
  finite value is kept as the exact quotient; rounding to a double and the formatting
  by \<open>toFixed(1)\<close> are not modelled.
\<close>

datatype quotient = NaN | Infinity | Finite rat

definition js_divide :: "nat \<Rightarrow> nat \<Rightarrow> quotient" where
  "js_divide a b =
     (if b = 0 then (if a = 0 then NaN else Infinity) else Finite (of_nat a / of_nat b))"

definition js_times :: "quotient \<Rightarrow> rat \<Rightarrow> quotient" where
  "js_times q r = (case q of Finite x \<Rightarrow> Finite (x * r) | other \<Rightarrow> other)"

definition summary_percentage :: "nat \<Rightarrow> nat \<Rightarrow> quotient" where
  "summary_percentage pricesFetched pricesTotal =
     js_times (js_divide pricesFetched pricesTotal) 100"

text \<open>
  The snapshot \<open>{ lastUpdated, owners, cards }\<close>; its owner list is the field
  \<open>ownerList\<close> here.
\<close>

record Snapshot =
  lastUpdated :: string
  ownerList :: "Owner list"
  cards :: "(string \<times> CardAggregate) list"

text \<open>What a completed run leaves: the snapshot written and the figures of the summary line.\<close>

record Report =
  snapshot :: Snapshot
  pricesFetched :: nat
  pricesTotal :: nat
  percentage :: quotient

text \<open>
  \<open>main\<close>, given the time stamp, the configuration, the environment and the network.
  The file system is not modelled.
\<close>

definition main ::
  "string \<Rightarrow> Config \<Rightarrow> (string \<Rightarrow> string option) \<Rightarrow> payload response list
     \<Rightarrow> (Report, payload) io" where
  "main now config env net =
     (case process_sources config env (sources config) ([], []) net of
        (Resolved (ownersMap, cardsMap), net1, tr1) \<Rightarrow>
          (case enrich_cards cardsMap (0, 0) net1 of
             (Resolved (cardsMap', fetched, tot), net2, tr2) \<Rightarrow>
               (Resolved \<lparr>snapshot = \<lparr>lastUpdated = now, ownerList = map snd ownersMap,
                                       cards = cardsMap'\<rparr>,
                          pricesFetched = fetched, pricesTotal = tot,
                          percentage = summary_percentage fetched tot\<rparr>,
                net2, tr1 @ tr2)
           | (Rejected e, net2, tr2) \<Rightarrow> (Rejected e, net2, tr1 @ tr2)
           | (Pending, net2, tr2) \<Rightarrow> (Pending, net2, tr1 @ tr2))
      | (Rejected e, net1, tr1) \<Rightarrow> (Rejected e, net1, tr1)
      | (Pending, net1, tr1) \<Rightarrow> (Pending, net1, tr1))"

section \<open>Example data\<close>

definition ex_bolt :: RawCardEntry where
  "ex_bolt =
     \<lparr>qty = 4, setCode = ''lea'', setName = ''Limited Edition Alpha'', isFoil = True,
      collectorNumber = ''161'', scryfallId = [], name = ''Lightning Bolt'',
      finishes = [''foil'']\<rparr>"

definition ex_bolt_upper :: RawCardEntry where
  "ex_bolt_upper = ex_bolt\<lparr>name := ''LIGHTNING BOLT'', qty := 2\<rparr>"

definition ex_bolt_nonfoil :: RawCardEntry where
  "ex_bolt_nonfoil = ex_bolt\<lparr>isFoil := False, finishes := [''nonfoil''], qty := 3\<rparr>"

definition ex_cards_F :: "(string \<times> CardAggregate) list" where
  "ex_cards_F =
     [(''lightning bolt'',
       \<lparr>cardName = ''Lightning Bolt'',
        owners = [(''G'', [\<lparr>qty = 3, setCode = ''lea'', setName = ''Limited Edition Alpha'',
                           isFoil = False, collectorNumber = ''161'', scryfallId = [],
                           price = None\<rparr>]),
                  (''F'', [\<lparr>qty = 6, setCode = ''lea'', setName = ''Limited Edition Alpha'',
                           isFoil = True, collectorNumber = ''161'', scryfallId = [],
                           price = None\<rparr>,
                          \<lparr>qty = 3, setCode = ''lea'', setName = ''Limited Edition Alpha'',
                           isFoil = False, collectorNumber = ''161'', scryfallId = [],
                           price = None\<rparr>])]\<rparr>)]"

definition ex_cards_F2 :: "(string \<times> CardAggregate) list" where
  "ex_cards_F2 =
     [(''lightning bolt'',
       \<lparr>cardName = ''Lightning Bolt'',
        owners = [(''G'', [\<lparr>qty = 3, setCode = ''lea'', setName = ''Limited Edition Alpha'',
                           isFoil = False, collectorNumber = ''161'', scryfallId = [],
                           price = None\<rparr>]),
                  (''F'', [\<lparr>qty = 4, setCode = ''lea'', setName = ''Limited Edition Alpha'',
                           isFoil = True, collectorNumber = ''161'', scryfallId = [],
                           price = None\<rparr>,
                          \<lparr>qty = 3, setCode = ''lea'', setName = ''Limited Edition Alpha'',
                           isFoil = False, collectorNumber = ''161'', scryfallId = [],
                           price = None\<rparr>])]\<rparr>)]"

definition ex_cards_upper :: "(string \<times> CardAggregate) list" where
  "ex_cards_upper =
     [(''lightning bolt'',
       \<lparr>cardName = ''LIGHTNING BOLT'',
        owners = [(''G'', [\<lparr>qty = 2, setCode = ''lea'', setName = ''Limited Edition Alpha'',
                           isFoil = True, collectorNumber = ''161'', scryfallId = [],
                           price = None\<rparr>]),
                  (''F'', [\<lparr>qty = 4, setCode = ''lea'', setName = ''Limited Edition Alpha'',
                           isFoil = True, collectorNumber = ''161'', scryfallId = [],
                           price = None\<rparr>])]\<rparr>)]"

definition ex_cards_upper2 :: "(string \<times> CardAggregate) list" where
  "ex_cards_upper2 =
     [(''lightning bolt'',
       \<lparr>cardName = ''LIGHTNING BOLT'',
        owners = [(''G'', [\<lparr>qty = 2, setCode = ''lea'', setName = ''Limited Edition Alpha'',
                           isFoil = True, collectorNumber = ''161'', scryfallId = [],
                           price = None\<rparr>]),
                  (''F'', [\<lparr>qty = 8, setCode = ''lea'', setName = ''Limited Edition Alpha'',
                           isFoil = True, collectorNumber = ''161'', scryfallId = [],
                           price = None\<rparr>])]\<rparr>)]"




definition ex_card_no_set :: card_json where
  "ex_card_no_set =
     \<lparr>j_name = Some ''Lightning Bolt'', j_set = None, j_setName = None, j_cn = None,
      j_finishes = None, j_scryfall_id = None, j_scryfallId = None\<rparr>"

definition ex_entry_top_level :: entry_json where
  "ex_entry_top_level =
     \<lparr>j_name = None, j_set = Some ''lea'', j_setName = Some ''Limited Edition Alpha'',
      j_cn = Some ''161'', j_finishes = Some [''foil''], j_scryfall_id = Some ''abc'',
      j_scryfallId = None, j_quantity = Some 4, j_card = Some ex_card_no_set\<rparr>"

definition ex_card_nested :: card_json where
  "ex_card_nested =
     \<lparr>j_name = Some ''Lightning Bolt'', j_set = Some ''mh3'', j_setName = Some ''Modern Horizons 3'',
      j_cn = Some ''7'', j_finishes = None, j_scryfall_id = Some ''id-1'',
      j_scryfallId = None\<rparr>"

definition ex_printing_a :: Printing where
  "ex_printing_a =
     \<lparr>qty = 1, setCode = ''lea'', setName = [], isFoil = False, collectorNumber = ''161'',
      scryfallId = ''id-a'', price = None\<rparr>"

definition ex_printing_b :: Printing where
  "ex_printing_b =
     \<lparr>qty = 1, setCode = ''mh3'', setName = [], isFoil = False, collectorNumber = ''7'',
      scryfallId = [], price = None\<rparr>"

definition ex_price_doc :: payload where
  "ex_price_doc = CardDoc \<lparr>prices = Some \<lparr>usd_foil = None, usd = Some ''1.50''\<rparr>\<rparr>"

definition ex_config_proto :: Config where
  "ex_config_proto =
     \<lparr>sources = [\<lparr>owner = ''constructor'', url = None, urls = Some []\<rparr>,
                 \<lparr>owner = ''Fausto'', url = None, urls = Some []\<rparr>],
      phoneSecretNames = None\<rparr>"

definition ex_printing_nokey :: Printing where
  "ex_printing_nokey =
     \<lparr>qty = 1, setCode = ''unknown'', setName = [], isFoil = False, collectorNumber = [],
      scryfallId = [], price = None\<rparr>"

definition ex_deck_doc :: payload where
  "ex_deck_doc =
     DeckDoc \<lparr>mainboard = Some [(''Nix'', None)], sideboard = None, commanders = None,
              considering = None,
              maybeboard = Some [(''Bolt'', Some (ex_entry_top_level\<lparr>j_card := Some ex_card_nested\<rparr>))]\<rparr>"

definition ex_config_deck :: Config where
  "ex_config_deck =
     \<lparr>sources = [\<lparr>owner = ''F'', url = Some ''/decks/d1'', urls = None\<rparr>],
      phoneSecretNames = None\<rparr>"

definition ex_config_empty :: Config where
  "ex_config_empty = \<lparr>sources = [], phoneSecretNames = None\<rparr>"

definition ex_report_deck :: Report where
  "ex_report_deck =
     \<lparr>snapshot =
        \<lparr>lastUpdated = ''t'',
         ownerList = [\<lparr>ownerName = ''F'', phone = [], cardCount = 2\<rparr>],
         cards =
           [(''nix'',
             \<lparr>cardName = ''Nix'',
              owners = [(''F'', [\<lparr>qty = 1, setCode = ''unknown'', setName = [],
                                 isFoil = False, collectorNumber = [], scryfallId = [],
                                 price = None\<rparr>])]\<rparr>),
            (''bolt'',
             \<lparr>cardName = ''Bolt'',
              owners = [(''F'', [\<lparr>qty = 4, setCode = ''mh3'',
                                 setName = ''Modern Horizons 3'', isFoil = True,
                                 collectorNumber = ''7'', scryfallId = ''id-1'',
                                 price = Some (parseFloat ''1.50'')\<rparr>])]\<rparr>)]\<rparr>,
      pricesFetched = 1, pricesTotal = 2, percentage = Finite 50\<rparr>"

definition ex_trace_deck :: "event list" where
  "ex_trace_deck =
     [Request (WORKER_URL @ ''?url='' @ encodeURIComponent (MOX_API @ ''/v2/decks/all/d1'')),
      Sleep 1000, Request ''https://api.scryfall.com/cards/id-1'', Sleep 100]"

definition ex_deck_constructor :: payload where
  "ex_deck_constructor =
     DeckDoc \<lparr>mainboard = Some [(''Constructor'',
                                  Some (ex_entry_top_level\<lparr>j_card := Some ex_card_nested\<rparr>))],
              sideboard = Some [(''constructor'',
                                  Some (ex_entry_top_level\<lparr>j_card := Some ex_card_nested\<rparr>))],
              commanders = None, considering = None, maybeboard = None\<rparr>"

definition ex_deck_two_printings :: payload where
  "ex_deck_two_printings =
     DeckDoc \<lparr>mainboard = Some [(''Bolt'',
                                  Some (ex_entry_top_level\<lparr>j_card := Some ex_card_nested\<rparr>))],
              sideboard = Some [(''Bolt'',
                                  Some (ex_entry_top_level\<lparr>j_card := Some ex_card_nested,
                                                          j_finishes := None\<rparr>))],
              commanders = None, considering = None, maybeboard = None\<rparr>"

definition ex_config_proto_owner :: Config where
  "ex_config_proto_owner =
     \<lparr>sources = [\<lparr>owner = ''constructor'', url = Some ''/decks/d1'', urls = None\<rparr>],
      phoneSecretNames = None\<rparr>"

definition ex_trace_fetch :: "event list" where
  "ex_trace_fetch =
     [Request (WORKER_URL @ ''?url='' @ encodeURIComponent (MOX_API @ ''/v2/decks/all/d1''))]"

section \<open>Properties\<close>

subsection \<open>Retry accounting of the fetch client\<close>

text \<open>
  C3.  With retry budget 2, the response sequence 503, 503, 200 makes \<open>httpGet\<close>
  resolve with the parsed payload of the 200 response, whatever the bodies of the two
  failed responses were, after two waits of 2000 ms; the sequence 503, 503, 503 makes it
  reject with the retry-exhausted error that carries the last status code, 503.  In general,
  while retries remain, a 429 response is followed by a wait of 5000 ms and a response
  with status 500 or more by a wait of 2000 ms, and then by the retry with one retry less.
\<close>

theorem httpGet_retry_accounting:
  "httpGet u 2 (Response 503 b1 # Response 503 b2 # Response 200 (Some payload) # net)
     = (Resolved payload, net,
        [Request u, Sleep 2000, Request u, Sleep 2000, Request u])
   \<and> httpGet u 2 (Response 503 b1 # Response 503 b2 # Response 503 b3 # net)
     = (Rejected (RetryExhausted 503), net,
        [Request u, Sleep 2000, Request u, Sleep 2000, Request u])
   \<and> (\<forall>n rs b. httpGet u (Suc n) (Response 429 b # rs)
        = (case httpGet u n rs of (res, rs', tr) \<Rightarrow>
             (res, rs', Request u # Sleep 5000 # tr)))
   \<and> (\<forall>n rs b code. code \<ge> 500 \<longrightarrow> httpGet u (Suc n) (Response code b # rs)
        = (case httpGet u n rs of (res, rs', tr) \<Rightarrow>
             (res, rs', Request u # Sleep 2000 # tr)))"
  by (simp add: numeral_2_eq_2 split: prod.splits)

theorem httpGet_retry_accounting_witness:
  "(500::nat) \<ge> 500 \<and>
   httpGet ''u'' (Suc 0) [Response 500 None, Response 200 (Some (7::nat))]
     = (Resolved 7, [], [Request ''u'', Sleep 2000, Request ''u''])"
  using httpGet_retry_accounting [of "''u''" None None "7::nat" "[]" None]
  by simp

subsection \<open>The merge loop\<close>

lemma printing_id_qty: "printing_id (p\<lparr>qty := x\<rparr>) = printing_id p"
  by (simp add: printing_id_def)

lemma printing_id_new: "printing_id (new_printing entry) = printing_id entry"
  by (simp add: printing_id_def new_printing_def)

lemma merge_printing_Cons:
  "merge_printing entry (p # ps) =
     (if printing_id p = printing_id entry
      then p\<lparr>qty := qty p + qty entry\<rparr> # ps
      else p # merge_printing entry ps)"
  by (simp add: printing_id_def)

lemma same_printing_qty: "same_printing pid (p\<lparr>qty := x\<rparr>) = same_printing pid p"
  by (simp add: same_printing_def printing_id_def)

lemma same_printing_new: "same_printing pid (new_printing entry) \<longleftrightarrow> printing_id entry = pid"
  by (simp add: same_printing_def printing_id_new)

lemma filter_merge_printing:
  "filter (same_printing pid) (merge_printing entry ps) =
     (if printing_id entry = pid
      then (case filter (same_printing pid) ps of
              [] \<Rightarrow> [new_printing entry]
            | p # r \<Rightarrow> p\<lparr>qty := qty p + qty entry\<rparr> # r)
      else filter (same_printing pid) ps)"
proof (induction ps)
  case Nil
  show ?case by (simp add: same_printing_new)
next
  case (Cons p ps)
  have sp: "same_printing pid p \<longleftrightarrow> printing_id p = pid"
    by (simp add: same_printing_def)
  show ?case
  proof (cases "printing_id p = printing_id entry")
    case True
    then show ?thesis
      by (simp add: merge_printing_Cons same_printing_qty sp del: merge_printing.simps)
  next
    case False
    then show ?thesis using Cons.IH
      by (auto simp add: merge_printing_Cons sp simp del: merge_printing.simps)
  qed
qed

lemma merge_card_Inr:
  assumes "merge_card own entry cm = Inr cm'"
  defines "key \<equiv> toLowerCase (name entry)"
  defines "agg \<equiv> (case map_of cm key of Some a \<Rightarrow> a
                  | None \<Rightarrow> \<lparr>cardName = name entry, owners = []\<rparr>)"
  shows "cm' = AList.update key
                 (agg\<lparr>owners := AList.update own
                          (merge_printing entry
                             (case map_of (owners agg) own of Some ps \<Rightarrow> ps | None \<Rightarrow> []))
                          (owners agg)\<rparr>) cm"
  using assms(1)
  unfolding merge_card_def Let_def key_def [symmetric]
  by (cases "map_of cm key"; cases "map_of (owners agg) own")
     (auto simp: agg_def get_prop_def split: if_splits)

lemma merge_card_printings_of:
  assumes "merge_card own entry cm = Inr cm'"
  shows "printings_of cm' k ow =
           (if k = toLowerCase (name entry) \<and> ow = own
            then merge_printing entry (printings_of cm k ow)
            else printings_of cm k ow)"
  unfolding merge_card_Inr [OF assms] printings_of_def
  by (simp add: update_conv' split: option.splits)

lemma merge_card_filter:
  assumes "merge_card o1 e1 cm = Inr cm1"
  shows "filter (same_printing pid) (printings_of cm1 k ow) =
           (if counts_for k ow pid (o1, e1)
            then (case filter (same_printing pid) (printings_of cm k ow) of
                    [] \<Rightarrow> [new_printing e1]
                  | p # r \<Rightarrow> p\<lparr>qty := qty p + qty e1\<rparr> # r)
            else filter (same_printing pid) (printings_of cm k ow))"
proof (cases "k = toLowerCase (name e1) \<and> ow = o1")
  case False
  then have nc: "\<not> counts_for k ow pid (o1, e1)" by (auto simp: counts_for_def)
  from False have "printings_of cm1 k ow = printings_of cm k ow"
    using merge_card_printings_of [OF assms, of k ow] by auto
  with nc show ?thesis by simp
next
  case True
  then have "counts_for k ow pid (o1, e1) \<longleftrightarrow> printing_id e1 = pid"
    by (simp add: counts_for_def)
  moreover from True
  have "printings_of cm1 k ow = merge_printing e1 (printings_of cm k ow)"
    using merge_card_printings_of [OF assms, of k ow] by simp
  ultimately show ?thesis by (simp add: filter_merge_printing)
qed

lemma merge_all_filter:
  assumes "merge_all pairs cm = Inr cm'"
  shows "filter (same_printing pid) (printings_of cm' k ow) =
           (case filter (same_printing pid) (printings_of cm k ow) of
              [] \<Rightarrow> (case filter (counts_for k ow pid) pairs of
                       [] \<Rightarrow> []
                     | oc # r \<Rightarrow> [(new_printing (snd oc))\<lparr>qty := total_qty (oc # r)\<rparr>])
            | p # ps \<Rightarrow>
                p\<lparr>qty := qty p + total_qty (filter (counts_for k ow pid) pairs)\<rparr> # ps)"
  using assms
proof (induction pairs arbitrary: cm)
  case Nil
  then show ?case by (simp add: total_qty_def split: list.splits)
next
  case (Cons oc rest)
  obtain o1 e1 where oc: "oc = (o1, e1)" by (cases oc)
  from Cons.prems oc obtain cm1 where
    step: "merge_card o1 e1 cm = Inr cm1" and rest: "merge_all rest cm1 = Inr cm'"
    by (auto split: sum.splits)
  note IH = Cons.IH [OF rest]
  note st = merge_card_filter [OF step, of pid k ow]
  show ?case
  proof (cases "counts_for k ow pid (o1, e1)")
    case False
    with IH st show ?thesis unfolding oc by (simp cong: list.case_cong)
  next
    case True
    show ?thesis
    proof (cases "filter (same_printing pid) (printings_of cm k ow)")
      case Nil
      with True IH st show ?thesis unfolding oc
        by (simp add: total_qty_def new_printing_def split: list.splits)
    next
      case (Cons p ps)
      with True IH st show ?thesis unfolding oc
        by (simp add: total_qty_def add.assoc)
    qed
  qed
qed

lemma merge_cards_merge_all:
  "merge_cards own cs cm = merge_all (map (Pair own) cs) cm"
  by (induction cs arbitrary: cm) (auto split: sum.splits)

lemma merge_card_cardName:
  assumes "merge_card own entry cm = Inr cm'"
  shows "map_option cardName (map_of cm' k) =
           (if k = toLowerCase (name entry) \<and> map_of cm k = None
            then Some (name entry)
            else map_option cardName (map_of cm k))"
  unfolding merge_card_Inr [OF assms]
  by (simp add: update_conv' split: option.splits)

lemma merge_all_cardName:
  assumes "merge_all pairs cm = Inr cm'"
  shows "map_option cardName (map_of cm' key) =
           (case map_of cm key of
              Some agg \<Rightarrow> Some (cardName agg)
            | None \<Rightarrow> map_option (\<lambda>oc. name (snd oc))
                       (find (\<lambda>oc. toLowerCase (name (snd oc)) = key) pairs))"
  using assms
proof (induction pairs arbitrary: cm)
  case Nil
  then show ?case by (simp split: option.splits)
next
  case (Cons oc rest)
  obtain o1 e1 where oc: "oc = (o1, e1)" by (cases oc)
  from Cons.prems oc obtain cm1 where
    step: "merge_card o1 e1 cm = Inr cm1" and rest: "merge_all rest cm1 = Inr cm'"
    by (auto split: sum.splits)
  note IH = Cons.IH [OF rest]
  note st = merge_card_cardName [OF step, of key]
  show ?case
  proof (cases "map_of cm key")
    case (Some agg)
    with st obtain agg1 where "map_of cm1 key = Some agg1" "cardName agg1 = cardName agg"
      by auto
    with IH Some show ?thesis by simp
  next
    case None
    show ?thesis
    proof (cases "toLowerCase (name e1) = key")
      case True
      with st None obtain agg1 where "map_of cm1 key = Some agg1" "cardName agg1 = name e1"
        by auto
      with IH None True show ?thesis unfolding oc by simp
    next
      case False
      with st None have "map_of cm1 key = None" by auto
      with IH None False show ?thesis unfolding oc by simp
    qed
  qed
qed

lemma filter_pair:
  assumes "P a" "P b" "\<forall>x \<in> set (xs @ ys @ zs). \<not> P x"
  shows "filter P (xs @ a # ys @ b # zs) = [a, b]"
  using assms by (simp add: filter_empty_conv)

lemma merge_all_printing_exists:
  assumes run: "merge_all pairs cm = Inr cm'" and mem: "(own, e) \<in> set pairs"
  shows "filter (same_printing (printing_id e)) (printings_of cm' (toLowerCase (name e)) own) \<noteq> []"
proof -
  have "counts_for (toLowerCase (name e)) own (printing_id e) (own, e)"
    by (simp add: counts_for_def)
  with mem have "filter (counts_for (toLowerCase (name e)) own (printing_id e)) pairs \<noteq> []"
    by (auto simp: filter_empty_conv)
  with merge_all_filter [OF run, of "printing_id e" "toLowerCase (name e)" own]
  show ?thesis by (auto split: list.splits)
qed

lemma filter_single:
  assumes "P a" "\<forall>x \<in> set (xs @ ys). \<not> P x"
  shows "filter P (xs @ a # ys) = [a]"
  using assms by (simp add: filter_empty_conv)


text \<open>
  C1 says that every two cards merged for one owner with equal lowercased name, equal
  \<open>set\<close> and equal \<open>isFoil\<close> end in exactly one printing that carries the sum of their
  quantities.  When the owner's name or the lowercased card name is a property name of
  \<open>Object.prototype\<close>, the loop body throws at the first of the two cards: the read
  of \<open>cardsMap[key]\<close> or of \<open>owners[src.owner]\<close> yields the inherited property, which
  is truthy, so nothing is created and the next access fails.  No printing is produced,
  and \<open>main\<close> rejects, as for a deck that lists \<open>Constructor\<close> in two sections.
\<close>

theorem merged_pair_throws_for_inherited_name:
  "merge_all [(''constructor'', ex_bolt), (''constructor'', ex_bolt_upper)] [] = Inl TypeError
   \<and> merge_all [(''F'', ex_bolt\<lparr>name := ''Constructor''\<rparr>),
                (''F'', ex_bolt\<lparr>name := ''constructor''\<rparr>)] [] = Inl TypeError
   \<and> main ''t'' ex_config_deck (\<lambda>k. None) [Response 200 (Some ex_deck_constructor)]
       = (Rejected TypeError, [], ex_trace_fetch)"
  by code_simp

lemma merge_card_completes:
  "toLowerCase (name entry) \<notin> set proto_names \<Longrightarrow> own \<notin> set proto_names
     \<Longrightarrow> \<exists>cm'. merge_card own entry cm = Inr cm'"
  by (simp add: merge_card_def Let_def get_prop_def split: option.splits)

text \<open>
  For all other names the loop body completes, and the two cards are summed: take any
  run of the merge loop that completes, from any aggregate, and in it two
  cards merged for the same owner whose lowercased names are equal (the readers have
  trimmed the names), whose \<open>set\<close> is equal and whose \<open>isFoil\<close> is equal.  When the
  owner's list for that card held no printing with this \<open>set\<close> and \<open>isFoil\<close> before the
  run and no other card of the run counts for it, the owner's list for that card holds
  exactly one printing with this \<open>set\<close> and \<open>isFoil\<close> afterwards, and its \<open>qty\<close> is the
  sum of the quantities of the two cards.
\<close>

theorem same_printing_entries_summed:
  assumes run: "merge_all (xs @ (own, a) # ys @ (own, b) # zs) cardsMap = Inr cardsMap'"
    and key: "toLowerCase (name a) = toLowerCase (name b)"
    and same: "setCode a = setCode b" "isFoil a = isFoil b"
    and fresh: "\<forall>p \<in> set (printings_of cardsMap (toLowerCase (name a)) own).
                  printing_id p \<noteq> printing_id a"
    and others: "\<forall>oc \<in> set (xs @ ys @ zs).
                   \<not> counts_for (toLowerCase (name a)) own (printing_id a) oc"
  shows "\<exists>p. filter (same_printing (printing_id a))
               (printings_of cardsMap' (toLowerCase (name a)) own) = [p]
             \<and> qty p = qty a + qty b"
proof -
  let ?P = "counts_for (toLowerCase (name a)) own (printing_id a)"
  have "?P (own, a)" by (simp add: counts_for_def)
  moreover have "?P (own, b)" using key same by (simp add: counts_for_def printing_id_def)
  ultimately have "filter ?P (xs @ (own, a) # ys @ (own, b) # zs) = [(own, a), (own, b)]"
    using others by (rule filter_pair)
  moreover have "filter (same_printing (printing_id a))
                   (printings_of cardsMap (toLowerCase (name a)) own) = []"
    using fresh by (auto simp: filter_empty_conv same_printing_def)
  ultimately show ?thesis
    using merge_all_filter [OF run, of "printing_id a" "toLowerCase (name a)" own]
    by (simp add: total_qty_def)
qed

theorem same_printing_entries_summed_witness:
  "merge_all [(''G'', ex_bolt_nonfoil), (''F'', ex_bolt), (''F'', ex_bolt_upper),
              (''F'', ex_bolt_nonfoil)] [] = Inr ex_cards_F
   \<and> (\<exists>p. filter (same_printing (printing_id ex_bolt))
              (printings_of ex_cards_F (toLowerCase (name ex_bolt)) ''F'') = [p]
          \<and> qty p = qty ex_bolt + qty ex_bolt_upper)"
proof -
  have run: "merge_all ([(''G'', ex_bolt_nonfoil)] @ (''F'', ex_bolt) # []
                        @ (''F'', ex_bolt_upper) # [(''F'', ex_bolt_nonfoil)]) []
               = Inr ex_cards_F"
    by code_simp
  have key: "toLowerCase (name ex_bolt) = toLowerCase (name ex_bolt_upper)"
    by code_simp
  have same: "setCode ex_bolt = setCode ex_bolt_upper" "isFoil ex_bolt = isFoil ex_bolt_upper"
    by (simp_all add: ex_bolt_upper_def)
  have fresh: "\<forall>p \<in> set (printings_of [] (toLowerCase (name ex_bolt)) ''F'').
                 printing_id p \<noteq> printing_id ex_bolt"
    by (simp add: printings_of_def)
  have others: "\<forall>oc \<in> set ([(''G'', ex_bolt_nonfoil)] @ [] @ [(''F'', ex_bolt_nonfoil)]).
                  \<not> counts_for (toLowerCase (name ex_bolt)) ''F'' (printing_id ex_bolt) oc"
    by (simp add: counts_for_def printing_id_def ex_bolt_nonfoil_def ex_bolt_def)
  from same_printing_entries_summed [OF run key same fresh others] run
  show ?thesis by simp
qed

text \<open>
  C2 says that every two cards of one owner and one card name that differ in \<open>set\<close> or
  in \<open>isFoil\<close> end in two distinct printings.  When the owner's name or the lowercased
  card name is a property name of \<open>Object.prototype\<close>, the loop body throws at the
  first of the two cards and no printing is produced at all, as for the owner
  \<open>constructor\<close> whose deck lists one card in a foil and a non-foil printing.
\<close>

theorem distinct_pair_throws_for_inherited_name:
  "merge_all [(''constructor'', ex_bolt), (''constructor'', ex_bolt_nonfoil)] [] = Inl TypeError
   \<and> merge_all [(''F'', ex_bolt\<lparr>name := ''Constructor''\<rparr>),
                (''F'', ex_bolt_nonfoil\<lparr>name := ''Constructor''\<rparr>)] [] = Inl TypeError
   \<and> main ''t'' ex_config_proto_owner (\<lambda>k. None) [Response 200 (Some ex_deck_two_printings)]
       = (Rejected TypeError, [], ex_trace_fetch)"
  by code_simp

text \<open>
  For all other names the two printings are kept apart: take any run of the merge loop
  that completes, from any aggregate, and in it two
  cards merged for the same owner whose lowercased names are equal and that differ in
  \<open>set\<close> or in \<open>isFoil\<close>.  Afterwards the owner's list for that card holds two different
  printings, one with the \<open>set\<close> and \<open>isFoil\<close> of the first card and one with those of
  the second.  The quantities are not added into one printing: when the list held no
  printing of either kind before the run and no other card of the run counts for
  either, each is the only printing of its kind and carries the quantity of its own
  card alone.
\<close>

theorem distinct_printings_kept_apart:
  assumes run: "merge_all (xs @ (own, a) # ys @ (own, b) # zs) cardsMap = Inr cardsMap'"
    and key: "toLowerCase (name a) = toLowerCase (name b)"
    and diff: "setCode a \<noteq> setCode b \<or> isFoil a \<noteq> isFoil b"
  shows "\<exists>pa pb. pa \<in> set (printings_of cardsMap' (toLowerCase (name a)) own)
           \<and> pb \<in> set (printings_of cardsMap' (toLowerCase (name a)) own)
           \<and> printing_id pa = printing_id a \<and> printing_id pb = printing_id b
           \<and> pa \<noteq> pb
           \<and> ((\<forall>p \<in> set (printings_of cardsMap (toLowerCase (name a)) own).
                    printing_id p \<noteq> printing_id a \<and> printing_id p \<noteq> printing_id b)
                \<and> (\<forall>oc \<in> set (xs @ ys @ zs).
                      \<not> counts_for (toLowerCase (name a)) own (printing_id a) oc
                      \<and> \<not> counts_for (toLowerCase (name a)) own (printing_id b) oc)
                \<longrightarrow> filter (same_printing (printing_id a))
                       (printings_of cardsMap' (toLowerCase (name a)) own) = [pa]
                    \<and> filter (same_printing (printing_id b))
                       (printings_of cardsMap' (toLowerCase (name a)) own) = [pb]
                    \<and> qty pa = qty a \<and> qty pb = qty b)"
proof -
  let ?k = "toLowerCase (name a)"
  let ?ps = "printings_of cardsMap' ?k own"
  let ?all = "xs @ (own, a) # ys @ (own, b) # zs"
  let ?fa = "filter (same_printing (printing_id a)) ?ps"
  let ?fb = "filter (same_printing (printing_id b)) ?ps"
  have ids: "printing_id a \<noteq> printing_id b" using diff by (auto simp: printing_id_def)
  have "?fa \<noteq> []" using merge_all_printing_exists [OF run, of own a] by simp
  then obtain pa ra where fa: "?fa = pa # ra" by (cases ?fa) auto
  have "?fb \<noteq> []" using merge_all_printing_exists [OF run, of own b] key by simp
  then obtain pb rb where fb: "?fb = pb # rb" by (cases ?fb) auto
  from fa have "pa \<in> set ?fa" by simp
  then have pa: "pa \<in> set ?ps" "printing_id pa = printing_id a"
    by (auto simp: same_printing_def)
  from fb have "pb \<in> set ?fb" by simp
  then have pb: "pb \<in> set ?ps" "printing_id pb = printing_id b"
    by (auto simp: same_printing_def)
  from pa pb ids have ne: "pa \<noteq> pb" by auto
  have iso: "?fa = [pa] \<and> ?fb = [pb] \<and> qty pa = qty a \<and> qty pb = qty b"
    if fresh: "\<forall>p \<in> set (printings_of cardsMap ?k own).
                 printing_id p \<noteq> printing_id a \<and> printing_id p \<noteq> printing_id b"
      and others: "\<forall>oc \<in> set (xs @ ys @ zs).
                      \<not> counts_for ?k own (printing_id a) oc
                      \<and> \<not> counts_for ?k own (printing_id b) oc"
  proof -
    have fresh_a: "filter (same_printing (printing_id a)) (printings_of cardsMap ?k own) = []"
      and fresh_b: "filter (same_printing (printing_id b)) (printings_of cardsMap ?k own) = []"
      using fresh by (auto simp: filter_empty_conv same_printing_def)
    have ca: "counts_for ?k own (printing_id a) (own, a)"
      and cb: "counts_for ?k own (printing_id b) (own, b)"
      and nab: "\<not> counts_for ?k own (printing_id a) (own, b)"
      and nba: "\<not> counts_for ?k own (printing_id b) (own, a)"
      using key ids by (auto simp: counts_for_def)
    have "filter (counts_for ?k own (printing_id a)) (xs @ (own, a) # (ys @ (own, b) # zs))
            = [(own, a)]"
      using ca nab others by (intro filter_single) auto
    with merge_all_filter [OF run, of "printing_id a" ?k own] fresh_a
    have A: "?fa = [(new_printing a)\<lparr>qty := qty a\<rparr>]" by (simp add: total_qty_def)
    have "filter (counts_for ?k own (printing_id b)) ((xs @ (own, a) # ys) @ (own, b) # zs)
            = [(own, b)]"
      using cb nba others by (intro filter_single) auto
    with merge_all_filter [OF run, of "printing_id b" ?k own] fresh_b
    have B: "?fb = [(new_printing b)\<lparr>qty := qty b\<rparr>]" by (simp add: total_qty_def)
    from A B fa fb show ?thesis by auto
  qed
  from pa pb ne iso show ?thesis by blast
qed


theorem distinct_printings_kept_apart_witness:
  "merge_all [(''G'', ex_bolt_nonfoil), (''F'', ex_bolt), (''F'', ex_bolt_nonfoil)] []
     = Inr ex_cards_F2
   \<and> (\<exists>pa pb. filter (same_printing (printing_id ex_bolt))
                 (printings_of ex_cards_F2 (toLowerCase (name ex_bolt)) ''F'') = [pa]
             \<and> filter (same_printing (printing_id ex_bolt_nonfoil))
                 (printings_of ex_cards_F2 (toLowerCase (name ex_bolt)) ''F'') = [pb]
             \<and> pa \<noteq> pb \<and> qty pa = 4 \<and> qty pb = 3)"
proof -
  let ?k = "toLowerCase (name ex_bolt)"
  have run: "merge_all ([(''G'', ex_bolt_nonfoil)] @ (''F'', ex_bolt) # []
                        @ (''F'', ex_bolt_nonfoil) # []) [] = Inr ex_cards_F2"
    by code_simp
  have key: "?k = toLowerCase (name ex_bolt_nonfoil)"
    by (simp add: ex_bolt_nonfoil_def)
  have diff: "setCode ex_bolt \<noteq> setCode ex_bolt_nonfoil \<or> isFoil ex_bolt \<noteq> isFoil ex_bolt_nonfoil"
    by (simp add: ex_bolt_nonfoil_def ex_bolt_def)
  have fresh: "\<forall>p \<in> set (printings_of [] ?k ''F'').
                 printing_id p \<noteq> printing_id ex_bolt \<and> printing_id p \<noteq> printing_id ex_bolt_nonfoil"
    by (simp add: printings_of_def)
  have others: "\<forall>oc \<in> set ([(''G'', ex_bolt_nonfoil)] @ [] @ []).
                  \<not> counts_for ?k ''F'' (printing_id ex_bolt) oc
                  \<and> \<not> counts_for ?k ''F'' (printing_id ex_bolt_nonfoil) oc"
    by (simp add: counts_for_def)
  from distinct_printings_kept_apart [OF run key diff] fresh others
  obtain pa pb where
    "filter (same_printing (printing_id ex_bolt)) (printings_of ex_cards_F2 ?k ''F'') = [pa]"
    "filter (same_printing (printing_id ex_bolt_nonfoil)) (printings_of ex_cards_F2 ?k ''F'') = [pb]"
    "pa \<noteq> pb" "qty pa = qty ex_bolt" "qty pb = qty ex_bolt_nonfoil"
    by blast
  moreover have "qty ex_bolt = 4" "qty ex_bolt_nonfoil = 3"
    by (simp_all add: ex_bolt_def ex_bolt_nonfoil_def)
  ultimately show ?thesis using run by auto
qed

lemma find_first:
  assumes "P x" "\<forall>y \<in> set pre. \<not> P y"
  shows "find P (pre @ x # post) = Some x"
  using assms by (induction pre) auto

text \<open>
  C8.  Take any run of the merge loop that completes, from any aggregate, and any card
  key.  When the aggregate already held the key, the display name stored under it is
  the same after the run: no card of the run overwrites it, whatever its casing.  When
  the aggregate did not hold the key, the display name stored after the run is the
  name, in its original case, of the first card of the run whose lowercased name is
  the key.
\<close>

theorem display_name_fixed_by_first_entry:
  assumes run: "merge_all pairs cardsMap = Inr cardsMap'"
  shows "(\<forall>agg. map_of cardsMap key = Some agg \<longrightarrow>
            (\<exists>agg'. map_of cardsMap' key = Some agg' \<and> cardName agg' = cardName agg))
       \<and> (\<forall>pre own e post.
            map_of cardsMap key = None \<and> pairs = pre @ (own, e) # post
            \<and> toLowerCase (name e) = key
            \<and> (\<forall>oc \<in> set pre. toLowerCase (name (snd oc)) \<noteq> key)
            \<longrightarrow> (\<exists>agg'. map_of cardsMap' key = Some agg' \<and> cardName agg' = name e))"
proof (intro conjI allI impI)
  fix agg assume "map_of cardsMap key = Some agg"
  with merge_all_cardName [OF run, of key]
  show "\<exists>agg'. map_of cardsMap' key = Some agg' \<and> cardName agg' = cardName agg"
    by auto
next
  fix pre own e post
  assume h: "map_of cardsMap key = None \<and> pairs = pre @ (own, e) # post
            \<and> toLowerCase (name e) = key
            \<and> (\<forall>oc \<in> set pre. toLowerCase (name (snd oc)) \<noteq> key)"
  then have "find (\<lambda>oc. toLowerCase (name (snd oc)) = key) pairs = Some (own, e)"
    using find_first [of "\<lambda>oc. toLowerCase (name (snd oc)) = key" "(own, e)" pre post]
    by simp
  with h merge_all_cardName [OF run, of key]
  show "\<exists>agg'. map_of cardsMap' key = Some agg' \<and> cardName agg' = name e"
    by auto
qed

theorem display_name_fixed_by_first_entry_witness:
  "merge_all [(''G'', ex_bolt_upper), (''F'', ex_bolt)] [] = Inr ex_cards_upper
   \<and> (\<exists>agg. map_of ex_cards_upper ''lightning bolt'' = Some agg
             \<and> cardName agg = ''LIGHTNING BOLT'')
   \<and> merge_all [(''F'', ex_bolt)] ex_cards_upper = Inr ex_cards_upper2
   \<and> (\<exists>agg. map_of ex_cards_upper2 ''lightning bolt'' = Some agg
             \<and> cardName agg = ''LIGHTNING BOLT'')"
proof -
  have run: "merge_all [(''G'', ex_bolt_upper), (''F'', ex_bolt)] [] = Inr ex_cards_upper"
    by code_simp
  have first: "map_of [] ''lightning bolt'' = None
       \<and> [(''G'', ex_bolt_upper), (''F'', ex_bolt)]
           = [] @ (''G'', ex_bolt_upper) # [(''F'', ex_bolt)]
       \<and> toLowerCase (name ex_bolt_upper) = ''lightning bolt''
       \<and> (\<forall>oc \<in> set []. toLowerCase (name (snd oc)) \<noteq> ''lightning bolt'')"
    by code_simp
  have nm: "name ex_bolt_upper = ''LIGHTNING BOLT''" by (simp add: ex_bolt_upper_def)
  from display_name_fixed_by_first_entry [OF run, of "''lightning bolt''"] first nm
  have A: "\<exists>agg. map_of ex_cards_upper ''lightning bolt'' = Some agg
             \<and> cardName agg = ''LIGHTNING BOLT''"
    by metis
  have run2: "merge_all [(''F'', ex_bolt)] ex_cards_upper = Inr ex_cards_upper2"
    by code_simp
  from display_name_fixed_by_first_entry [OF run2, of "''lightning bolt''"] A
  have B: "\<exists>agg. map_of ex_cards_upper2 ''lightning bolt'' = Some agg
             \<and> cardName agg = ''LIGHTNING BOLT''"
    by auto
  from run A run2 B show ?thesis by blast
qed

subsection \<open>Invariants of the aggregation phase\<close>

lemma merge_cards_invariant:
  assumes step: "\<And>own e cm cm'. I cm \<Longrightarrow> merge_card own e cm = Inr cm' \<Longrightarrow> I cm'"
  shows "merge_cards own es cm = Inr cm' \<Longrightarrow> I cm \<Longrightarrow> I cm'"
proof (induction es arbitrary: cm)
  case Nil
  then show ?case by simp
next
  case (Cons e es)
  from Cons.prems(1) obtain cm1 where
    a: "merge_card own e cm = Inr cm1" and b: "merge_cards own es cm1 = Inr cm'"
    by (auto split: sum.splits)
  from step [OF Cons.prems(2) a] have "I cm1" .
  from Cons.IH [OF b this] show ?case .
qed

lemma process_urls_cards_invariant:
  assumes step: "\<And>own e cm cm'. I cm \<Longrightarrow> merge_card own e cm = Inr cm' \<Longrightarrow> I cm'"
  shows "process_urls own us (om, cm) net = (Resolved (om', cm'), net', tr) \<Longrightarrow> I cm \<Longrightarrow> I cm'"
proof (induction us arbitrary: om cm net tr)
  case Nil
  then show ?case by simp
next
  case (Cons u us)
  show ?case
  proof (cases "parseMoxfieldUrl u")
    case None
    with Cons.prems(1) have "process_urls own us (om, cm) net = (Resolved (om', cm'), net', tr)"
      by simp
    from Cons.IH [OF this Cons.prems(2)] show ?thesis .
  next
    case (Some parsed)
    let ?fetch = "if kind parsed = deck then fetchDeck (ident parsed) net
                  else fetchCollection (ident parsed) net"
    obtain r1 net1 tr1 where f: "?fetch = (r1, net1, tr1)" by (cases ?fetch)
    show ?thesis
    proof (cases r1)
      case Pending
      with Cons.prems(1) Some f show ?thesis by simp
    next
      case (Rejected e)
      with Cons.prems(1) Some f obtain tr2 where
        "process_urls own us (om, cm) net1 = (Resolved (om', cm'), net', tr2)"
        by (auto split: prod.splits)
      from Cons.IH [OF this Cons.prems(2)] show ?thesis .
    next
      case (Resolved cs)
      with Cons.prems(1) Some f obtain cm1 tr2 where
        m: "merge_cards own cs cm = Inr cm1" and
        r: "process_urls own us (add_cardCount own (length cs) om, cm1) net1
              = (Resolved (om', cm'), net', tr2)"
        by (auto split: prod.splits sum.splits)
      from merge_cards_invariant [of I, OF step m Cons.prems(2)] have "I cm1" by simp
      from Cons.IH [OF r this] show ?thesis .
    qed
  qed
qed

lemma process_sources_cards_invariant:
  assumes step: "\<And>own e cm cm'. I cm \<Longrightarrow> merge_card own e cm = Inr cm' \<Longrightarrow> I cm'"
  shows "process_sources config env srcs (om, cm) net = (Resolved (om', cm'), net', tr)
           \<Longrightarrow> I cm \<Longrightarrow> I cm'"
proof (induction srcs arbitrary: om cm net tr)
  case Nil
  then show ?case by simp
next
  case (Cons src srcs)
  let ?pu = "process_urls (owner src) (urls_of src)
               (register_owner config env (owner src) om, cm) net"
  obtain r1 net1 tr1 where pu: "?pu = (r1, net1, tr1)" by (cases ?pu)
  from Cons.prems(1) pu obtain om1 cm1 where r1: "r1 = Resolved (om1, cm1)"
    by (cases r1) auto
  from Cons.prems(1) pu r1 obtain tr2 where
    r: "process_sources config env srcs (om1, cm1) net1 = (Resolved (om', cm'), net', tr2)"
    by (auto split: prod.splits)
  from process_urls_cards_invariant [of I, OF step pu [unfolded r1] Cons.prems(2)]
  have "I cm1" by simp
  from Cons.IH [OF r this] show ?case .
qed

lemma mem_update:
  "x \<in> set (AList.update k v al) \<Longrightarrow> x = (k, v) \<or> x \<in> set al"
  by (induction al) (auto split: if_splits)

lemma set_all_printings:
  "p \<in> set (all_printings cm) \<longleftrightarrow>
     (\<exists>k a ow ps. (k, a) \<in> set cm \<and> (ow, ps) \<in> set (owners a) \<and> p \<in> set ps)"
  unfolding all_printings_def by (simp, safe) (force+)

lemma merge_printing_null:
  "\<forall>p \<in> set ps. price p = None \<Longrightarrow> \<forall>p \<in> set (merge_printing e ps). price p = None"
  by (induction ps) (auto simp: new_printing_def)

lemma merge_card_null:
  assumes inv: "\<forall>p \<in> set (all_printings cm). price p = None"
    and m: "merge_card own e cm = Inr cm'"
  shows "\<forall>p \<in> set (all_printings cm'). price p = None"
proof
  fix p assume "p \<in> set (all_printings cm')"
  then obtain k a ow ps where
    ka: "(k, a) \<in> set cm'" and ops: "(ow, ps) \<in> set (owners a)" and p: "p \<in> set ps"
    unfolding set_all_printings by blast
  from inv have inv': "price q = None"
    if "(k0, a0) \<in> set cm" "(o0, ps0) \<in> set (owners a0)" "q \<in> set ps0" for k0 a0 o0 ps0 q
  proof -
    from that have "q \<in> set (all_printings cm)" unfolding set_all_printings by blast
    with inv show ?thesis by blast
  qed
  define key where "key = toLowerCase (name e)"
  define agg where "agg = (case map_of cm key of Some a \<Rightarrow> a
                            | None \<Rightarrow> \<lparr>cardName = name e, owners = []\<rparr>)"
  define prev where "prev = (case map_of (owners agg) own of Some ps \<Rightarrow> ps | None \<Rightarrow> [])"
  have agg_null: "\<forall>ow ps. (ow, ps) \<in> set (owners agg) \<longrightarrow> (\<forall>p \<in> set ps. price p = None)"
  proof (cases "map_of cm key")
    case None
    then show ?thesis by (simp add: agg_def)
  next
    case (Some a0)
    then have "(key, a0) \<in> set cm" by (rule map_of_SomeD)
    then have "\<forall>ow ps. (ow, ps) \<in> set (owners a0) \<longrightarrow> (\<forall>p \<in> set ps. price p = None)"
      using inv' by blast
    with Some show ?thesis by (simp add: agg_def)
  qed
  have prev_null: "\<forall>p \<in> set prev. price p = None"
  proof (cases "map_of (owners agg) own")
    case None
    then show ?thesis by (simp add: prev_def)
  next
    case (Some ps0)
    then have "(own, ps0) \<in> set (owners agg)" by (rule map_of_SomeD)
    with agg_null Some show ?thesis by (auto simp: prev_def)
  qed
  from merge_card_Inr [OF m]
  have cm': "cm' = AList.update key
                     (agg\<lparr>owners := AList.update own (merge_printing e prev) (owners agg)\<rparr>) cm"
    by (simp add: key_def agg_def prev_def)
  from ka [unfolded cm'] have
    "(k, a) = (key, agg\<lparr>owners := AList.update own (merge_printing e prev) (owners agg)\<rparr>)
     \<or> (k, a) \<in> set cm"
    by (rule mem_update)
  then show "price p = None"
  proof
    assume "(k, a) \<in> set cm"
    from inv' [OF this ops p] show ?thesis .
  next
    assume "(k, a) = (key, agg\<lparr>owners := AList.update own (merge_printing e prev) (owners agg)\<rparr>)"
    with ops have "(ow, ps) \<in> set (AList.update own (merge_printing e prev) (owners agg))"
      by simp
    then have "(ow, ps) = (own, merge_printing e prev) \<or> (ow, ps) \<in> set (owners agg)"
      by (rule mem_update)
    then show ?thesis
    proof
      assume "(ow, ps) = (own, merge_printing e prev)"
      with p merge_printing_null [OF prev_null, of e] show ?thesis by simp
    next
      assume "(ow, ps) \<in> set (owners agg)"
      with agg_null p show ?thesis by blast
    qed
  qed
qed

lemma process_sources_null:
  assumes "process_sources config env srcs ([], []) net = (Resolved (om', cm'), net', tr)"
  shows "\<forall>p \<in> set (all_printings cm'). price p = None"
proof -
  let ?I = "\<lambda>cm. \<forall>p \<in> set (all_printings cm). price p = None"
  have step: "?I cm2" if "?I cm1" "merge_card own e cm1 = Inr cm2" for own e cm1 cm2
    using that by (rule merge_card_null)
  have init: "?I []" by (simp add: all_printings_def)
  from process_sources_cards_invariant [of ?I, OF step assms init] show ?thesis .
qed

subsection \<open>The price enrichment pass\<close>

lemma fetchPrice_skip:
  "sid = [] \<and> (st = [] \<or> cn = []) \<Longrightarrow>
   fetchPrice sid st cn cname net = (Resolved None, net, [])"
  by (simp add: fetchPrice_def)

lemma fetchPrice_not_Rejected:
  "fetchPrice sid st cn cname net \<noteq> (Rejected e, net', tr)"
  by (auto simp: fetchPrice_def Let_def split: prod.splits outcome.splits payload.splits)

lemma fetchPrice_Some_not_skipped:
  "fetchPrice sid st cn cname net = (Resolved (Some s), net', tr) \<Longrightarrow>
   \<not> (sid = [] \<and> (st = [] \<or> cn = []))"
  by (auto simp: fetchPrice_def)

lemma enrich_printings_Resolved:
  assumes "enrich_printings cname ps (f, t) net = (Resolved (ps', f', t'), net', tr)"
  shows "list_all2 kept ps ps' \<and> t' = t + length ps \<and> f \<le> f' \<and> f' \<le> f + length ps"
  using assms
proof (induction ps arbitrary: f t net ps' f' t' net' tr)
  case Nil
  then show ?case by simp
next
  case (Cons p ps)
  obtain r1 net1 tr1 where fp:
    "fetchPrice (scryfallId p) (setCode p) (collectorNumber p) cname net = (r1, net1, tr1)"
    by (cases "fetchPrice (scryfallId p) (setCode p) (collectorNumber p) cname net")
  from Cons.prems fp obtain pr where r1: "r1 = Resolved pr"
    by (cases r1) auto
  let ?f1 = "case pr of Some s \<Rightarrow> f + 1 | None \<Rightarrow> f"
  let ?p1 = "case pr of Some s \<Rightarrow> p\<lparr>price := Some (parseFloat s)\<rparr> | None \<Rightarrow> p"
  obtain r2 net2 tr2 where rec: "enrich_printings cname ps (?f1, t + 1) net1 = (r2, net2, tr2)"
    by (cases "enrich_printings cname ps (?f1, t + 1) net1")
  from Cons.prems fp r1 rec obtain ps0 where
    r2: "r2 = Resolved (ps0, f', t')" and ps': "ps' = ?p1 # ps0"
    by (cases r2) auto
  from Cons.IH [OF rec [unfolded r2]]
  have IH: "list_all2 kept ps ps0" "t' = t + 1 + length ps" "?f1 \<le> f'" "f' \<le> ?f1 + length ps"
    by simp_all
  have "kept p ?p1"
  proof (cases pr)
    case None
    then show ?thesis by (simp add: kept_def)
  next
    case (Some s)
    with fp r1 have "\<not> lacks_price_key p"
      using fetchPrice_Some_not_skipped [of "scryfallId p" "setCode p" "collectorNumber p" cname net s net1 tr1]
      by (simp add: lacks_price_key_def)
    with Some show ?thesis by (simp add: kept_def)
  qed
  with IH ps' show ?case by (auto split: option.splits)
qed

lemma enrich_owners_Resolved:
  assumes "enrich_owners cname os (f, t) net = (Resolved (os', f', t'), net', tr)"
  shows "list_all2 owner_kept os os' \<and> t' = t + length (concat (map snd os))
         \<and> f \<le> f' \<and> f' \<le> f + length (concat (map snd os))"
  using assms
proof (induction os arbitrary: f t net os' f' t' net' tr)
  case Nil
  then show ?case by simp
next
  case (Cons x os)
  obtain own ps where x: "x = (own, ps)" by (cases x)
  obtain r1 net1 tr1 where ep: "enrich_printings cname ps (f, t) net = (r1, net1, tr1)"
    by (cases "enrich_printings cname ps (f, t) net")
  from Cons.prems x ep obtain ps1 f1 t1 where r1: "r1 = Resolved (ps1, f1, t1)"
    by (cases r1) auto
  obtain r2 net2 tr2 where rec: "enrich_owners cname os (f1, t1) net1 = (r2, net2, tr2)"
    by (cases "enrich_owners cname os (f1, t1) net1")
  from Cons.prems x ep r1 rec obtain os0 where
    r2: "r2 = Resolved (os0, f', t')" and os': "os' = (own, ps1) # os0"
    by (cases r2) auto
  note A = enrich_printings_Resolved [OF ep [unfolded r1]]
  note B = Cons.IH [OF rec [unfolded r2]]
  from A B show ?case unfolding x os' by (simp add: owner_kept_def)
qed

lemma all_printings_Cons:
  "all_printings ((k, a) # cm) = concat (map snd (owners a)) @ all_printings cm"
  by (simp add: all_printings_def)

lemma enrich_cards_Resolved:
  assumes "enrich_cards cm (f, t) net = (Resolved (cm', f', t'), net', tr)"
  shows "list_all2 card_kept cm cm' \<and> t' = t + count_printings cm
         \<and> f \<le> f' \<and> f' \<le> f + count_printings cm"
  using assms
proof (induction cm arbitrary: f t net cm' f' t' net' tr)
  case Nil
  then show ?case by (simp add: count_printings_def all_printings_def)
next
  case (Cons x cm)
  obtain k a where x: "x = (k, a)" by (cases x)
  obtain r1 net1 tr1 where eo: "enrich_owners (cardName a) (owners a) (f, t) net = (r1, net1, tr1)"
    by (cases "enrich_owners (cardName a) (owners a) (f, t) net")
  from Cons.prems x eo obtain os1 f1 t1 where r1: "r1 = Resolved (os1, f1, t1)"
    by (cases r1) auto
  obtain r2 net2 tr2 where rec: "enrich_cards cm (f1, t1) net1 = (r2, net2, tr2)"
    by (cases "enrich_cards cm (f1, t1) net1")
  from Cons.prems x eo r1 rec obtain cm0 where
    r2: "r2 = Resolved (cm0, f', t')" and cm': "cm' = (k, a\<lparr>owners := os1\<rparr>) # cm0"
    by (cases r2) auto
  note A = enrich_owners_Resolved [OF eo [unfolded r1]]
  note B = Cons.IH [OF rec [unfolded r2]]
  from A B show ?case unfolding x cm'
    by (simp add: card_kept_def count_printings_def all_printings_Cons)
qed

lemma list_all2_concat:
  "list_all2 (list_all2 R) xss yss \<Longrightarrow> list_all2 R (concat xss) (concat yss)"
  by (induction rule: list_all2_induct) (auto intro: list_all2_appendI)

lemma owner_kept_concat:
  "list_all2 owner_kept os os' \<Longrightarrow> list_all2 kept (concat (map snd os)) (concat (map snd os'))"
  by (induction rule: list_all2_induct) (auto simp: owner_kept_def intro: list_all2_appendI)

lemma card_kept_all_printings:
  "list_all2 card_kept cm cm' \<Longrightarrow> list_all2 kept (all_printings cm) (all_printings cm')"
proof (induction rule: list_all2_induct)
  case Nil
  then show ?case by (simp add: all_printings_def)
next
  case (Cons x xs y ys)
  obtain k a k' a' where xy: "x = (k, a)" "y = (k', a')" by (cases x, cases y)
  from Cons.hyps(1) have "list_all2 kept (concat (map snd (owners a))) (concat (map snd (owners a')))"
    unfolding xy card_kept_def by (auto intro: owner_kept_concat)
  with Cons.IH show ?case unfolding xy all_printings_Cons by (rule list_all2_appendI [rotated])
qed

lemma kept_null:
  assumes "list_all2 kept ps ps'" "\<forall>p \<in> set ps. price p = None" "p' \<in> set ps'" "lacks_price_key p'"
  shows "price p' = None"
proof -
  from assms(3) obtain i where i: "i < length ps'" "p' = ps' ! i"
    by (auto simp: in_set_conv_nth)
  with assms(1) have "ps ! i \<in> set ps" "kept (ps ! i) p'"
    by (auto simp: list_all2_conv_all_nth)
  then obtain p where p: "p \<in> set ps" "kept p p'" by blast
  from p(2) have eq: "p' = p\<lparr>price := price p'\<rparr>" by (simp add: kept_def)
  have "lacks_price_key p' = lacks_price_key p"
    by (subst eq) (simp add: lacks_price_key_def)
  with assms(4) p(2) have "p' = p" by (simp add: kept_def)
  with p(1) assms(2) show ?thesis by simp
qed

lemma enrich_cards_no_printings:
  "all_printings cm = [] \<Longrightarrow> enrich_cards cm counts net = (Resolved (cm, counts), net, [])"
proof (induction cm arbitrary: counts)
  case Nil
  show ?case by simp
next
  case (Cons x cm)
  obtain k a where x: "x = (k, a)" by (cases x)
  from Cons.prems have e: "concat (map snd (owners a)) = []" and r: "all_printings cm = []"
    unfolding x all_printings_Cons by simp_all
  have "enrich_owners cname os counts net = (Resolved (os, counts), net, [])"
    if "concat (map snd os) = []" for cname os
    using that
  proof (induction os)
    case Nil
    show ?case by simp
  next
    case (Cons y os)
    then show ?case by (cases y) auto
  qed
  from this [OF e] Cons.IH [OF r] show ?case unfolding x by simp
qed

lemma main_Resolved:
  assumes "main now config env net = (Resolved rep, net', tr)"
  obtains om cm net1 tr1 cm' f t tr2 where
    "process_sources config env (sources config) ([], []) net = (Resolved (om, cm), net1, tr1)"
    "enrich_cards cm (0, 0) net1 = (Resolved (cm', f, t), net', tr2)"
    "rep = \<lparr>snapshot = \<lparr>lastUpdated = now, ownerList = map snd om, cards = cm'\<rparr>,
            pricesFetched = f, pricesTotal = t, percentage = summary_percentage f t\<rparr>"
    "tr = tr1 @ tr2"
proof -
  obtain r1 net1 tr1 where ps:
    "process_sources config env (sources config) ([], []) net = (r1, net1, tr1)"
    by (cases "process_sources config env (sources config) ([], []) net")
  from assms ps obtain om cm where r1: "r1 = Resolved (om, cm)"
    by (cases r1) (auto simp: main_def)
  obtain r2 net2 tr2 where ec: "enrich_cards cm (0, 0) net1 = (r2, net2, tr2)"
    by (cases "enrich_cards cm (0, 0) net1")
  from assms ps r1 ec obtain cm' f t where r2: "r2 = Resolved (cm', f, t)"
    by (cases r2) (auto simp: main_def)
  from assms ps r1 ec r2 have
    "rep = \<lparr>snapshot = \<lparr>lastUpdated = now, ownerList = map snd om, cards = cm'\<rparr>,
            pricesFetched = f, pricesTotal = t, percentage = summary_percentage f t\<rparr>"
    "net' = net2" "tr = tr1 @ tr2"
    by (auto simp: main_def)
  with ps r1 ec r2 that show ?thesis by blast
qed

text \<open>
  C5 says that every attempted price query is followed by the pause of 100 ms whatever
  its outcome, also when the HTTP layer throws.  The pause is the last statement of the
  \<open>try\<close> block, so a query whose \<open>httpGet\<close> rejects goes to \<open>catch\<close> and returns without
  it: after a 404 for the first printing the request for the second follows at once.
\<close>

theorem no_pause_after_failed_price_query:
  "fetchPrice ''id-a'' ''lea'' ''161'' ''Bolt'' [Response 404 None]
     = (Resolved None, [], [Request ''https://api.scryfall.com/cards/id-a''])
   \<and> enrich_printings ''Bolt'' [ex_printing_a, ex_printing_b] (0, 0)
       [Response 404 None, Response 200 (Some ex_price_doc)]
     = (Resolved ([ex_printing_a, ex_printing_b\<lparr>price := Some (parseFloat ''1.50'')\<rparr>], 1, 2),
        [],
        [Request ''https://api.scryfall.com/cards/id-a'',
         Request ''https://api.scryfall.com/cards/mh3/7'',
         Sleep 100])"
  by code_simp

text \<open>
  C6.  A printing that lacks a Scryfall id and lacks a complete pair of set and
  collector number makes \<open>fetchPrice\<close> return \<open>null\<close> with no request and no timer on
  any network, which is left as it was.  The pass changes nothing but prices, and
  leaves such a printing as it was.  In the snapshot of every completed run, every
  such printing has the price \<open>null\<close>.
\<close>

theorem skipped_printing_no_call_price_null:
  "(lacks_price_key p \<longrightarrow>
      fetchPrice (scryfallId p) (setCode p) (collectorNumber p) cname net
        = (Resolved None, net, []))
   \<and> (enrich_cards cm counts net1 = (Resolved (cm', counts'), net1', tr1) \<longrightarrow>
        list_all2 kept (all_printings cm) (all_printings cm'))
   \<and> (main now config env net2 = (Resolved rep, net2', tr2) \<longrightarrow>
        (\<forall>q \<in> set (all_printings (cards (snapshot rep))).
            lacks_price_key q \<longrightarrow> price q = None))"
proof (intro conjI impI)
  assume "lacks_price_key p"
  then show "fetchPrice (scryfallId p) (setCode p) (collectorNumber p) cname net
               = (Resolved None, net, [])"
    by (simp add: lacks_price_key_def fetchPrice_skip)
next
  assume e: "enrich_cards cm counts net1 = (Resolved (cm', counts'), net1', tr1)"
  obtain f t f' t' where c: "counts = (f, t)" "counts' = (f', t')"
    by (cases counts, cases counts')
  from enrich_cards_Resolved [OF e [unfolded c]]
  show "list_all2 kept (all_printings cm) (all_printings cm')"
    by (auto intro: card_kept_all_printings)
next
  assume m: "main now config env net2 = (Resolved rep, net2', tr2)"
  from m obtain om cm0 n1 t1 cm1 f t t2 where
    ps: "process_sources config env (sources config) ([], []) net2
           = (Resolved (om, cm0), n1, t1)"
    and ec: "enrich_cards cm0 (0, 0) n1 = (Resolved (cm1, f, t), net2', t2)"
    and rep: "rep = \<lparr>snapshot = \<lparr>lastUpdated = now, ownerList = map snd om, cards = cm1\<rparr>,
                     pricesFetched = f, pricesTotal = t,
                     percentage = summary_percentage f t\<rparr>"
    and trs: "tr2 = t1 @ t2"
    by (rule main_Resolved)
  from process_sources_null [OF ps] have null: "\<forall>q \<in> set (all_printings cm0). price q = None" .
  from enrich_cards_Resolved [OF ec]
  have k: "list_all2 kept (all_printings cm0) (all_printings cm1)"
    by (auto intro: card_kept_all_printings)
  show "\<forall>q \<in> set (all_printings (cards (snapshot rep))). lacks_price_key q \<longrightarrow> price q = None"
    using kept_null [OF k null] by (simp add: rep)
qed

theorem skipped_printing_no_call_price_null_witness:
  "lacks_price_key ex_printing_nokey
   \<and> fetchPrice [] ''unknown'' [] ''Nix'' [Response 200 (Some ex_price_doc)]
       = (Resolved None, [Response 200 (Some ex_price_doc)], [])
   \<and> main ''t'' ex_config_deck (\<lambda>k. None)
         [Response 200 (Some ex_deck_doc), Response 200 (Some ex_price_doc)]
       = (Resolved ex_report_deck, [], ex_trace_deck)
   \<and> filter lacks_price_key (all_printings (cards (snapshot ex_report_deck)))
       = [ex_printing_nokey]
   \<and> map price (filter lacks_price_key (all_printings (cards (snapshot ex_report_deck))))
       = [None]"
proof -
  have l: "lacks_price_key ex_printing_nokey" by code_simp
  have sel: "scryfallId ex_printing_nokey = []" "setCode ex_printing_nokey = ''unknown''"
    "collectorNumber ex_printing_nokey = []"
    by (simp_all add: ex_printing_nokey_def)
  have m: "main ''t'' ex_config_deck (\<lambda>k. None)
             [Response 200 (Some ex_deck_doc), Response 200 (Some ex_price_doc)]
           = (Resolved ex_report_deck, [], ex_trace_deck)"
    by code_simp
  have f: "filter lacks_price_key (all_printings (cards (snapshot ex_report_deck)))
             = [ex_printing_nokey]"
    by code_simp
  note inst = skipped_printing_no_call_price_null
         [where p = ex_printing_nokey and cname = "''Nix''"
            and net = "[Response 200 (Some ex_price_doc)]"
            and now = "''t''" and config = ex_config_deck and env = "\<lambda>k. None"
            and ?net2.0 = "[Response 200 (Some ex_deck_doc), Response 200 (Some ex_price_doc)]"
            and rep = ex_report_deck and net2' = "[]" and ?tr2.0 = ex_trace_deck]
  from inst l sel have fp: "fetchPrice [] ''unknown'' [] ''Nix'' [Response 200 (Some ex_price_doc)]
       = (Resolved None, [Response 200 (Some ex_price_doc)], [])" by simp
  from inst m have all: "\<forall>q \<in> set (all_printings (cards (snapshot ex_report_deck))).
          lacks_price_key q \<longrightarrow> price q = None" by blast
  have "ex_printing_nokey \<in> set (filter lacks_price_key
          (all_printings (cards (snapshot ex_report_deck))))"
    unfolding f by simp
  then have "ex_printing_nokey \<in> set (all_printings (cards (snapshot ex_report_deck)))"
    by simp
  with all l have "price ex_printing_nokey = None" by blast
  with f have "map price (filter lacks_price_key
          (all_printings (cards (snapshot ex_report_deck)))) = [None]" by simp
  with l fp m f show ?thesis by blast
qed

subsection \<open>The summary line\<close>

text \<open>
  C9.  In every completed run the percentage of the summary line is the quotient
  \<open>pricesFetched / pricesTotal\<close> times 100, computed with no test of the denominator,
  and \<open>pricesTotal\<close> is the number of printings of the aggregate.  So when the aggregate
  has no printing, the division is \<open>0 / 0\<close>, which in JavaScript is \<open>NaN\<close>.
\<close>

theorem summary_percentage_unguarded:
  assumes m: "main now config env net = (Resolved rep, net', tr)"
  shows "percentage rep = js_times (js_divide (pricesFetched rep) (pricesTotal rep)) 100
       \<and> pricesTotal rep = count_printings (cards (snapshot rep))
       \<and> (count_printings (cards (snapshot rep)) = 0 \<longrightarrow>
            js_divide (pricesFetched rep) (pricesTotal rep) = js_divide 0 0
            \<and> percentage rep = NaN)"
proof -
  from m obtain om cm0 net1 tr1 cm1 f t tr2 where
    ps: "process_sources config env (sources config) ([], []) net
           = (Resolved (om, cm0), net1, tr1)"
    and ec: "enrich_cards cm0 (0, 0) net1 = (Resolved (cm1, f, t), net', tr2)"
    and rep: "rep = \<lparr>snapshot = \<lparr>lastUpdated = now, ownerList = map snd om, cards = cm1\<rparr>,
                     pricesFetched = f, pricesTotal = t,
                     percentage = summary_percentage f t\<rparr>"
    and trs: "tr = tr1 @ tr2"
    by (rule main_Resolved)
  from enrich_cards_Resolved [OF ec]
  have k: "list_all2 card_kept cm0 cm1" and t: "t = count_printings cm0"
    and f: "f \<le> count_printings cm0" by simp_all
  from card_kept_all_printings [OF k] have "count_printings cm1 = count_printings cm0"
    by (simp add: count_printings_def list_all2_lengthD)
  with t f show ?thesis
    by (auto simp: rep summary_percentage_def js_divide_def js_times_def)
qed


theorem summary_percentage_unguarded_witness:
  "main ''t'' ex_config_empty (\<lambda>k. None) []
     = (Resolved \<lparr>snapshot = \<lparr>lastUpdated = ''t'', ownerList = [], cards = []\<rparr>,
                  pricesFetched = 0, pricesTotal = 0, percentage = NaN\<rparr>, [], [])
   \<and> count_printings [] = 0 \<and> js_divide 0 0 = NaN"
proof -
  have m: "main ''t'' ex_config_empty (\<lambda>k. None) []
     = (Resolved \<lparr>snapshot = \<lparr>lastUpdated = ''t'', ownerList = [], cards = []\<rparr>,
                  pricesFetched = 0, pricesTotal = 0, percentage = NaN\<rparr>, [], [])"
    by code_simp
  from summary_percentage_unguarded [OF m] m show ?thesis
    by (simp add: js_times_def split: quotient.splits)
qed

subsection \<open>Owner registration\<close>

text \<open>
  C10 says that every configured source has its owner record created before its URLs
  are processed, so that the owner is in the owner list of the snapshot even with no
  URL.  An owner whose name is a property name of \<open>Object.prototype\<close>, such as
  \<open>constructor\<close>, is never registered: \<open>ownersMap[src.owner]\<close> reads the inherited
  property, which is truthy, and the block under \<open>// ensure owner exists\<close> is skipped.
  The run below completes and its snapshot lists the owner of the second source only.
\<close>

theorem owner_with_inherited_name_not_registered:
  "main ''2026-02-03T06:00:00Z'' ex_config_proto (\<lambda>k. None) []
     = (Resolved \<lparr>snapshot = \<lparr>lastUpdated = ''2026-02-03T06:00:00Z'',
                               ownerList = [\<lparr>ownerName = ''Fausto'', phone = [],
                                             cardCount = 0\<rparr>],
                               cards = []\<rparr>,
                  pricesFetched = 0, pricesTotal = 0, percentage = NaN\<rparr>,
        [], [])"
  by code_simp


text \<open>
  For every other owner name the registration does what the comment says: an owner
  that was not registered gets the record with \<open>cardCount\<close> 0, and the owner of every
  source is in the owner list of the snapshot of every completed run.
\<close>

lemma register_owner_keys:
  "fst ` set om \<subseteq> fst ` set (register_owner config env own om)"
  "own \<notin> set proto_names \<Longrightarrow> own \<in> fst ` set (register_owner config env own om)"
proof -
  show "fst ` set om \<subseteq> fst ` set (register_owner config env own om)"
    by (auto simp: register_owner_def Let_def dom_update split: property.splits)
  assume np: "own \<notin> set proto_names"
  show "own \<in> fst ` set (register_owner config env own om)"
  proof (cases "map_of om own")
    case None
    with np have "get_prop om own = Missing" by (simp add: get_prop_def)
    then show ?thesis by (simp add: register_owner_def Let_def dom_update)
  next
    case (Some v)
    then have "(own, v) \<in> set om" by (rule map_of_SomeD)
    then have "own \<in> fst ` set om" by force
    moreover from Some have "get_prop om own = Own v" by (simp add: get_prop_def)
    ultimately show ?thesis by (simp add: register_owner_def)
  qed
qed

lemma register_owner_new:
  assumes "own \<notin> set proto_names" "map_of om own = None"
  shows "\<exists>ph. map_of (register_owner config env own om) own
           = Some \<lparr>ownerName = own, phone = ph, cardCount = 0\<rparr>"
proof -
  from assms have "get_prop om own = Missing" by (simp add: get_prop_def)
  then show ?thesis by (simp add: register_owner_def Let_def update_conv')
qed

lemma register_owner_names:
  assumes "names_match om"
  shows "names_match (register_owner config env own om)"
proof (cases "get_prop om own")
  case Missing
  then obtain ph where
    eq: "register_owner config env own om
           = AList.update own \<lparr>ownerName = own, phone = ph, cardCount = 0\<rparr> om"
    by (simp add: register_owner_def Let_def)
  show ?thesis
    unfolding names_match_def eq
  proof
    fix x assume "x \<in> set (AList.update own \<lparr>ownerName = own, phone = ph, cardCount = 0\<rparr> om)"
    then have "x = (own, \<lparr>ownerName = own, phone = ph, cardCount = 0\<rparr>) \<or> x \<in> set om"
      by (rule mem_update)
    with assms show "ownerName (snd x) = fst x"
      by (auto simp: names_match_def)
  qed
qed (use assms in \<open>simp_all add: register_owner_def\<close>)

lemma add_cardCount_keys:
  "fst ` set (add_cardCount own n om) = fst ` set om"
proof (cases "map_of om own")
  case None
  then show ?thesis by (simp add: add_cardCount_def)
next
  case (Some v)
  then have "(own, v) \<in> set om" by (rule map_of_SomeD)
  then have "own \<in> fst ` set om" by force
  with Some show ?thesis by (auto simp: add_cardCount_def dom_update)
qed

lemma add_cardCount_names:
  assumes "names_match om"
  shows "names_match (add_cardCount own n om)"
proof (cases "map_of om own")
  case None
  with assms show ?thesis by (simp add: add_cardCount_def)
next
  case (Some v)
  then have "(own, v) \<in> set om" by (rule map_of_SomeD)
  with assms have nm: "ownerName v = own" by (auto simp: names_match_def)
  show ?thesis
    unfolding names_match_def
  proof
    fix x assume "x \<in> set (add_cardCount own n om)"
    with Some have "x \<in> set (AList.update own (v\<lparr>cardCount := cardCount v + int n\<rparr>) om)"
      by (simp add: add_cardCount_def)
    then have "x = (own, v\<lparr>cardCount := cardCount v + int n\<rparr>) \<or> x \<in> set om"
      by (rule mem_update)
    with nm assms show "ownerName (snd x) = fst x" by (auto simp: names_match_def)
  qed
qed

lemma process_urls_owners_invariant:
  assumes step: "\<And>n om. P om \<Longrightarrow> P (add_cardCount own n om)"
  shows "process_urls own us (om, cm) net = (Resolved (om', cm'), net', tr) \<Longrightarrow> P om \<Longrightarrow> P om'"
proof (induction us arbitrary: om cm net tr)
  case Nil
  then show ?case by simp
next
  case (Cons u us)
  show ?case
  proof (cases "parseMoxfieldUrl u")
    case None
    with Cons.prems(1) have "process_urls own us (om, cm) net = (Resolved (om', cm'), net', tr)"
      by simp
    from Cons.IH [OF this Cons.prems(2)] show ?thesis .
  next
    case (Some parsed)
    let ?fetch = "if kind parsed = deck then fetchDeck (ident parsed) net
                  else fetchCollection (ident parsed) net"
    obtain r1 net1 tr1 where f: "?fetch = (r1, net1, tr1)" by (cases ?fetch)
    show ?thesis
    proof (cases r1)
      case Pending
      with Cons.prems(1) Some f show ?thesis by simp
    next
      case (Rejected e)
      with Cons.prems(1) Some f obtain tr2 where
        "process_urls own us (om, cm) net1 = (Resolved (om', cm'), net', tr2)"
        by (auto split: prod.splits)
      from Cons.IH [OF this Cons.prems(2)] show ?thesis .
    next
      case (Resolved cs)
      with Cons.prems(1) Some f obtain cm1 tr2 where
        r: "process_urls own us (add_cardCount own (length cs) om, cm1) net1
              = (Resolved (om', cm'), net', tr2)"
        by (auto split: prod.splits sum.splits)
      from Cons.IH [OF r step [OF Cons.prems(2)]] show ?thesis .
    qed
  qed
qed

lemma process_sources_owners:
  "process_sources config env srcs (om, cm) net = (Resolved (om', cm'), net', tr)
     \<Longrightarrow> names_match om
     \<Longrightarrow> names_match om' \<and> fst ` set om \<subseteq> fst ` set om'
         \<and> (\<forall>s \<in> set srcs. owner s \<notin> set proto_names \<longrightarrow> owner s \<in> fst ` set om')"
proof (induction srcs arbitrary: om cm net tr)
  case Nil
  then show ?case by simp
next
  case (Cons src srcs)
  let ?om0 = "register_owner config env (owner src) om"
  let ?pu = "process_urls (owner src) (urls_of src) (?om0, cm) net"
  obtain r1 net1 tr1 where pu: "?pu = (r1, net1, tr1)" by (cases ?pu)
  from Cons.prems(1) pu obtain om1 cm1 where r1: "r1 = Resolved (om1, cm1)"
    by (cases r1) auto
  from Cons.prems(1) pu r1 obtain tr2 where
    r: "process_sources config env srcs (om1, cm1) net1 = (Resolved (om', cm'), net', tr2)"
    by (auto split: prod.splits)
  let ?P = "\<lambda>m. names_match m \<and> fst ` set m = fst ` set ?om0"
  have "?P (add_cardCount (owner src) n m)" if "?P m" for n m
    using that by (simp add: add_cardCount_names add_cardCount_keys)
  from process_urls_owners_invariant [of ?P, OF this pu [unfolded r1]]
       register_owner_names [OF Cons.prems(2)]
  have om1: "names_match om1" "fst ` set om1 = fst ` set ?om0" by simp_all
  from Cons.IH [OF r om1(1)]
  have IH: "names_match om'" "fst ` set om1 \<subseteq> fst ` set om'"
    "\<forall>s \<in> set srcs. owner s \<notin> set proto_names \<longrightarrow> owner s \<in> fst ` set om'"
    by simp_all
  from IH(2) om1(2) register_owner_keys [where om = om and config = config and env = env and own = "owner src"]
  have "fst ` set om \<subseteq> fst ` set om'"
    "owner src \<notin> set proto_names \<longrightarrow> owner src \<in> fst ` set om'"
    by auto
  with IH show ?case by simp
qed

lemma owners_of_completed_run:
  assumes m: "main now config env net = (Resolved rep, net', tr)"
    and src: "src \<in> set (sources config)" and np: "owner src \<notin> set proto_names"
  shows "\<exists>ow \<in> set (ownerList (snapshot rep)). ownerName ow = owner src"
proof -
  from m obtain om cm0 net1 tr1 cm1 f t tr2 where
    ps: "process_sources config env (sources config) ([], []) net
           = (Resolved (om, cm0), net1, tr1)"
    and ec: "enrich_cards cm0 (0, 0) net1 = (Resolved (cm1, f, t), net', tr2)"
    and rep: "rep = \<lparr>snapshot = \<lparr>lastUpdated = now, ownerList = map snd om, cards = cm1\<rparr>,
                     pricesFetched = f, pricesTotal = t,
                     percentage = summary_percentage f t\<rparr>"
    and trs: "tr = tr1 @ tr2"
    by (rule main_Resolved)
  have "names_match []" by (simp add: names_match_def)
  from process_sources_owners [OF ps this] src np
  have nm: "names_match om" and "owner src \<in> fst ` set om" by auto
  then obtain x where "x \<in> set om" "fst x = owner src" by auto
  with nm have "snd x \<in> set (map snd om)" "ownerName (snd x) = owner src"
    by (auto simp: names_match_def)
  then have "\<exists>ow \<in> set (map snd om). ownerName ow = owner src" by (rule bexI [rotated])
  then show ?thesis unfolding rep by simp
qed

subsection \<open>The deck reader\<close>

text \<open>
  The claim C4, that every one of the five printing properties falls back to the
  sibling top-level property, fails on an entry whose nested object has no \<open>set\<close> while
  the entry itself carries \<open>set\<close>, \<open>setName\<close>, \<open>cn\<close> and \<open>scryfall_id\<close>: the reader
  yields the defaults \<open>'unknown'\<close> and \<open>''\<close>, not the top-level values.
\<close>

theorem deck_entry_no_top_level_fallback:
  "j_set ex_card_no_set = None \<and> j_set ex_entry_top_level = Some ''lea''
   \<and> setCode (deck_entry_as_claimed ''Lightning Bolt'' (Some ex_entry_top_level)) = ''lea''
   \<and> setCode (deck_entry ''Lightning Bolt'' (Some ex_entry_top_level)) = ''unknown''
   \<and> setName (deck_entry ''Lightning Bolt'' (Some ex_entry_top_level)) = []
   \<and> collectorNumber (deck_entry ''Lightning Bolt'' (Some ex_entry_top_level)) = []
   \<and> scryfallId (deck_entry ''Lightning Bolt'' (Some ex_entry_top_level)) = []
   \<and> deck_entry ''Lightning Bolt'' (Some ex_entry_top_level)
       \<noteq> deck_entry_as_claimed ''Lightning Bolt'' (Some ex_entry_top_level)"
  by (simp add: deck_entry_def deck_entry_as_claimed_def with_fallback_def or_else_def
                ex_entry_top_level_def ex_card_no_set_def)

lemma deck_entry_sel:
  "setCode (deck_entry nm entry) = or_else (Option.bind (Option.bind entry j_card) j_set) ''unknown''"
  "setName (deck_entry nm entry) = or_else (Option.bind (Option.bind entry j_card) j_setName) []"
  "collectorNumber (deck_entry nm entry) = or_else (Option.bind (Option.bind entry j_card) j_cn) []"
  "scryfallId (deck_entry nm entry) =
     or_else (Option.bind (Option.bind entry j_card) j_scryfall_id)
       (or_else (Option.bind (Option.bind entry j_card) j_scryfallId) [])"
  "finishes (deck_entry nm entry) =
     (case Option.bind (Option.bind entry j_card) j_finishes of
        Some f \<Rightarrow> f
      | None \<Rightarrow> (case Option.bind entry j_finishes of Some f \<Rightarrow> f | None \<Rightarrow> []))"
  by (simp_all add: deck_entry_def Let_def)


text \<open>
  C4, amended.  For every deck entry, \<open>set\<close>, \<open>setName\<close>, \<open>collectorNumber\<close> and
  \<open>scryfallId\<close> are read from the nested card-detail object alone: they do not depend
  on the top-level properties of the entry, and where the nested object is absent or
  lacks the property they are \<open>'unknown'\<close>, \<open>''\<close>, \<open>''\<close> and \<open>''\<close> (\<open>scryfallId\<close>
  being the nested \<open>scryfall_id\<close> or else the nested \<open>scryfallId\<close>).  Only \<open>finishes\<close>
  falls back: it is the nested \<open>finishes\<close> when present, else the top-level \<open>finishes\<close>
  of the entry, else the empty list.
\<close>

theorem deck_entry_reads_nested:
  "(j_card e = j_card e' \<longrightarrow>
       setCode (deck_entry nm (Some e)) = setCode (deck_entry nm (Some e'))
     \<and> setName (deck_entry nm (Some e)) = setName (deck_entry nm (Some e'))
     \<and> collectorNumber (deck_entry nm (Some e)) = collectorNumber (deck_entry nm (Some e'))
     \<and> scryfallId (deck_entry nm (Some e)) = scryfallId (deck_entry nm (Some e')))
   \<and> (\<forall>c. j_card e = Some c \<longrightarrow>
         setCode (deck_entry nm (Some e)) = or_else (j_set c) ''unknown''
       \<and> setName (deck_entry nm (Some e)) = or_else (j_setName c) []
       \<and> collectorNumber (deck_entry nm (Some e)) = or_else (j_cn c) []
       \<and> scryfallId (deck_entry nm (Some e))
           = or_else (j_scryfall_id c) (or_else (j_scryfallId c) [])
       \<and> (\<forall>f. j_finishes c = Some f \<longrightarrow> finishes (deck_entry nm (Some e)) = f)
       \<and> (j_finishes c = None \<longrightarrow>
            finishes (deck_entry nm (Some e))
              = (case j_finishes e of Some f \<Rightarrow> f | None \<Rightarrow> [])))
   \<and> (j_card e = None \<longrightarrow>
         setCode (deck_entry nm (Some e)) = ''unknown''
       \<and> setName (deck_entry nm (Some e)) = []
       \<and> collectorNumber (deck_entry nm (Some e)) = []
       \<and> scryfallId (deck_entry nm (Some e)) = []
       \<and> finishes (deck_entry nm (Some e))
           = (case j_finishes e of Some f \<Rightarrow> f | None \<Rightarrow> []))"
  by (cases "j_card e") (simp_all add: deck_entry_sel or_else_def)


theorem deck_entry_reads_nested_witness:
  "j_card (ex_entry_top_level\<lparr>j_card := Some ex_card_nested\<rparr>) = Some ex_card_nested
   \<and> j_finishes ex_card_nested = None
   \<and> setCode (deck_entry ''Bolt'' (Some (ex_entry_top_level\<lparr>j_card := Some ex_card_nested\<rparr>)))
       = ''mh3''
   \<and> finishes (deck_entry ''Bolt'' (Some (ex_entry_top_level\<lparr>j_card := Some ex_card_nested\<rparr>)))
       = [''foil'']
   \<and> j_card (ex_entry_top_level\<lparr>j_card := None\<rparr>) = None
   \<and> setCode (deck_entry ''Bolt'' (Some (ex_entry_top_level\<lparr>j_card := None\<rparr>))) = ''unknown''
   \<and> j_card ex_entry_top_level = j_card (ex_entry_top_level\<lparr>j_set := None\<rparr>)
   \<and> setCode (deck_entry ''Bolt'' (Some ex_entry_top_level))
       = setCode (deck_entry ''Bolt'' (Some (ex_entry_top_level\<lparr>j_set := None\<rparr>)))"
  using deck_entry_reads_nested
          [of "ex_entry_top_level\<lparr>j_card := Some ex_card_nested\<rparr>" _ "''Bolt''"]
        deck_entry_reads_nested [of "ex_entry_top_level\<lparr>j_card := None\<rparr>" _ "''Bolt''"]
        deck_entry_reads_nested
          [of ex_entry_top_level "ex_entry_top_level\<lparr>j_set := None\<rparr>" "''Bolt''"]
  by (simp add: ex_entry_top_level_def ex_card_nested_def or_else_def)


subsection \<open>The source URL classifier\<close>











end
